theory Spec2Isabelle
  imports Main
begin

section \<open>Data model of the session store (src/stores/session.ts)\<close>

text \<open>
  The store keeps a registry of signaling sessions and sends update commands to the
  participants store (the roster). A JavaScript value that may be \<^verbatim>\<open>undefined\<close>, or an
  object key that may be absent, is an \<open>option\<close>; \<open>None\<close> is \<^verbatim>\<open>undefined\<close>/absent.
  Session ids are assumed not to be names of \<^verbatim>\<open>Object.prototype\<close> members.
  session.ts holds two revisions of the store; the model follows the later one (from line
  186), in which the earlier one's commented-out participant updates are in place, all but
  the update for a standalone update payload. An action that can throw returns
  \<open>error + result\<close>, \<open>Inl\<close> for the error; the world a throwing call leaves behind is
  not kept.
\<close>

datatype error =
    InvalidPayload  \<comment> \<open>\<^verbatim>\<open>throw new Error('Can not define sessionId from the payload')\<close>\<close>
  | TypeError       \<comment> \<open>the \<^verbatim>\<open>in\<close> operator applied to \<^verbatim>\<open>undefined\<close>\<close>

text \<open>\<^verbatim>\<open>type Session\<close>\<close>

record Session =
  s_attendeeId :: "int option"
  s_token :: string
  s_signalingSessionId :: string
  s_sessionId :: "string option"

text \<open>
  \<^verbatim>\<open>type SignalingSessionPayload\<close>: the store tells the three payload types apart by the
  keys an object has, so a payload is an object with every key the store reads, each
  possibly absent. \<open>user_displayname\<close> is \<^verbatim>\<open>user?.displayname\<close>.
\<close>

record Payload =
  roomId :: "int option"
  sessionId :: "string option"
  sessionid :: "string option"
  roomsessionid :: "string option"
  userid :: "string option"
  federated :: "bool option"
  user_displayname :: "string option"
  nextcloudSessionId :: "string option"
  actorId :: "string option"
  actorType :: "string option"
  userId :: "string option"
  inCall :: "int option"
  lastPing :: "int option"
  participantPermissions :: "int option"
  participantType :: "int option"
  displayName :: "string option"

text \<open>\<^verbatim>\<open>type Participant\<close>, the fields the store reads or commands.\<close>

record Participant =
  p_attendeeId :: int
  p_actorId :: string
  p_actorType :: string
  p_sessionIds :: "string option list"
  p_inCall :: int
  p_displayName :: "string option"
  p_participantType :: "int option"
  p_permissions :: "int option"
  p_lastPing :: "int option"

text \<open>
  The \<^verbatim>\<open>updatedData\<close> of an \<^verbatim>\<open>updateParticipant\<close> commit
  (\<^verbatim>\<open>ParticipantUpdatePayload\<close>, \<^verbatim>\<open>ParticipantStandaloneJoinPayload\<close> and the object
  literals of the leave path): a key the object does not have is \<open>None\<close>.
\<close>

record UpdatedData =
  u_attendeeId :: "int option"
  u_displayName :: "string option"
  u_inCall :: "int option"
  u_lastPing :: "int option"
  u_permissions :: "int option"
  u_participantType :: "int option"
  u_sessionIds :: "string option list option"

record Command =
  c_token :: string
  c_attendeeId :: int
  c_updatedData :: UpdatedData

text \<open>The second argument of \<^verbatim>\<open>store.getters.findParticipant\<close>.\<close>

record Identifier =
  q_sessionId :: "string option"
  q_actorId :: "string option"
  q_actorType :: "string option"

text \<open>
  Everything a store action can read or change: the registry \<^verbatim>\<open>this.sessions\<close>, the
  participants of each conversation (in the order \<^verbatim>\<open>participantsList\<close> returns them),
  the \<^verbatim>\<open>updateParticipant\<close> commits made so far and the \<^verbatim>\<open>findParticipant\<close> queries made
  so far.
\<close>

record World =
  sessions :: "string \<rightharpoonup> Session"
  roster :: "string \<Rightarrow> Participant list"
  commits :: "Command list"
  lookups :: "(string \<times> Identifier) list"

type_synonym finder = "(string \<Rightarrow> Participant list) \<Rightarrow> string \<Rightarrow> Identifier \<Rightarrow> Participant option"

section \<open>Constants and the participants store\<close>

text \<open>
  Modelled from the spec: the constants \<^verbatim>\<open>ATTENDEE.ACTOR_TYPE\<close> and
  \<^verbatim>\<open>PARTICIPANT.CALL_FLAG.DISCONNECTED\<close> of constants.ts, which is not among the sources:
  three actor types (regular user, federated user, guest) and the disconnected flag 0.
\<close>

definition ACTOR_TYPE_USERS :: string where
  "ACTOR_TYPE_USERS = ''users''"

definition ACTOR_TYPE_FEDERATED_USERS :: string where
  "ACTOR_TYPE_FEDERATED_USERS = ''federated_users''"

definition ACTOR_TYPE_GUESTS :: string where
  "ACTOR_TYPE_GUESTS = ''guests''"

definition CALL_FLAG_DISCONNECTED :: int where
  "CALL_FLAG_DISCONNECTED = 0"

text \<open>
  Modelled from the spec: the getters \<^verbatim>\<open>getParticipant\<close> and \<^verbatim>\<open>participantsList\<close> and the
  mutation \<^verbatim>\<open>updateParticipant\<close> of the participants store, which is not among the
  sources. The roster is keyed by attendee id; \<^verbatim>\<open>updateParticipant\<close> is a partial-field
  merge (a field \<^verbatim>\<open>updatedData\<close> does not have is left unchanged). The getter
  \<^verbatim>\<open>findParticipant\<close> is a parameter \<open>fp\<close> of every action that reaches it.
\<close>

definition getParticipant :: "World \<Rightarrow> string \<Rightarrow> int \<Rightarrow> Participant option" where
  "getParticipant st token attendeeId =
     find (\<lambda>p. p_attendeeId p = attendeeId) (roster st token)"

definition participantsList :: "World \<Rightarrow> string \<Rightarrow> Participant list" where
  "participantsList st token = roster st token"

definition orElse :: "'a option \<Rightarrow> 'a option \<Rightarrow> 'a option" where
  "orElse new old = (case new of None \<Rightarrow> old | Some v \<Rightarrow> Some v)"

definition mergeParticipant :: "Participant \<Rightarrow> UpdatedData \<Rightarrow> Participant" where
  "mergeParticipant p d =
     p\<lparr> p_sessionIds := (case u_sessionIds d of None \<Rightarrow> p_sessionIds p | Some ids \<Rightarrow> ids),
        p_inCall := (case u_inCall d of None \<Rightarrow> p_inCall p | Some v \<Rightarrow> v),
        p_displayName := orElse (u_displayName d) (p_displayName p),
        p_participantType := orElse (u_participantType d) (p_participantType p),
        p_permissions := orElse (u_permissions d) (p_permissions p),
        p_lastPing := orElse (u_lastPing d) (p_lastPing p) \<rparr>"

definition updateParticipant :: "World \<Rightarrow> string \<Rightarrow> int \<Rightarrow> UpdatedData \<Rightarrow> World" where
  "updateParticipant st token attendeeId updatedData =
     st\<lparr> roster := (roster st)(token :=
            map (\<lambda>p. if p_attendeeId p = attendeeId then mergeParticipant p updatedData else p)
              (roster st token)),
         commits := commits st @
            [\<lparr> c_token = token, c_attendeeId = attendeeId, c_updatedData = updatedData \<rparr>] \<rparr>"

text \<open>
  Modelled from the spec: a \<^verbatim>\<open>findParticipant\<close> for the concrete runs below (the getter is
  not among the sources): the first participant of the conversation with the actor type
  and id asked for, or holding the session id asked for.
\<close>

definition findParticipant :: finder where
  "findParticipant r token ident =
     find (\<lambda>p. (q_actorType ident = Some (p_actorType p) \<and> q_actorId ident = Some (p_actorId p))
              \<or> (q_sessionId ident \<noteq> None \<and> q_sessionId ident \<in> set (p_sessionIds p)))
       (r token)"

section \<open>Payload classification\<close>

text \<open>\<^verbatim>\<open>'roomId' in item\<close>, for one payload.\<close>

definition isInternalSignalingSession :: "Payload \<Rightarrow> bool" where
  "isInternalSignalingSession item = (roomId item \<noteq> None)"

text \<open>
  The array overload reads \<^verbatim>\<open>'roomId' in item[0]\<close>; on an empty array \<^verbatim>\<open>item[0]\<close> is
  \<^verbatim>\<open>undefined\<close> and the \<^verbatim>\<open>in\<close> operator throws a TypeError.
\<close>

definition isInternalSignalingSessions :: "Payload list \<Rightarrow> error + bool" where
  "isInternalSignalingSessions items =
     (case items of [] \<Rightarrow> Inl TypeError | item # _ \<Rightarrow> Inr (roomId item \<noteq> None))"

definition isStandaloneSignalingJoinSession :: "Payload \<Rightarrow> bool" where
  "isStandaloneSignalingJoinSession item = (sessionid item \<noteq> None)"

definition isStandaloneSignalingUpdateSession :: "Payload \<Rightarrow> bool" where
  "isStandaloneSignalingUpdateSession item = (roomId item = None \<and> sessionId item \<noteq> None)"

text \<open>
  Modelled from the spec: the three payload types of types/index.ts, which is not among
  the sources, by the keys that the spec's data model gives each shape and that belong
  to no other shape.
\<close>

definition InternalSignalingSession :: "Payload \<Rightarrow> bool" where
  "InternalSignalingSession item =
     (sessionId item \<noteq> None \<and> roomId item \<noteq> None
      \<and> sessionid item = None \<and> roomsessionid item = None \<and> userid item = None)"

definition StandaloneSignalingJoinSession :: "Payload \<Rightarrow> bool" where
  "StandaloneSignalingJoinSession item =
     (sessionid item \<noteq> None \<and> roomsessionid item \<noteq> None \<and> userid item \<noteq> None
      \<and> sessionId item = None \<and> roomId item = None \<and> userId item = None)"

definition StandaloneSignalingUpdateSession :: "Payload \<Rightarrow> bool" where
  "StandaloneSignalingUpdateSession item =
     (sessionId item \<noteq> None \<and> userId item \<noteq> None
      \<and> roomId item = None
      \<and> sessionid item = None \<and> roomsessionid item = None \<and> userid item = None)"

section \<open>The registry\<close>

text \<open>JavaScript truthiness of a string and of a number that may be \<^verbatim>\<open>undefined\<close>.\<close>

definition truthy_string :: "string option \<Rightarrow> bool" where
  "truthy_string v = (case v of None \<Rightarrow> False | Some s \<Rightarrow> s \<noteq> [])"

definition truthy_number :: "int option \<Rightarrow> bool" where
  "truthy_number v = (case v of None \<Rightarrow> False | Some n \<Rightarrow> n \<noteq> 0)"

definition getSession :: "World \<Rightarrow> string option \<Rightarrow> Session option" where
  "getSession st signalingSessionId =
     (case signalingSessionId of
        None \<Rightarrow> None
      | Some k \<Rightarrow> if k = [] then None else sessions st k)"

definition addSession :: "World \<Rightarrow> Session \<Rightarrow> Session \<times> World" where
  "addSession st session =
     (session, st\<lparr> sessions := (sessions st)(s_signalingSessionId session \<mapsto> session) \<rparr>)"

definition deleteSession :: "World \<Rightarrow> string \<Rightarrow> World" where
  "deleteSession st signalingSessionId =
     (case sessions st signalingSessionId of
        None \<Rightarrow> st
      | Some _ \<Rightarrow> st\<lparr> sessions := (sessions st)(signalingSessionId := None) \<rparr>)"

text \<open>The id \<^verbatim>\<open>findOrCreateSession\<close> reads first: \<^verbatim>\<open>sessionid\<close> of a join payload, else \<^verbatim>\<open>sessionId\<close>.\<close>

definition payloadSignalingSessionId :: "Payload \<Rightarrow> string option" where
  "payloadSignalingSessionId user =
     (if isStandaloneSignalingJoinSession user then sessionid user else sessionId user)"

text \<open>The room-session id and the \<^verbatim>\<open>findParticipant\<close> query of a payload not yet registered.\<close>

definition payloadIdentifier :: "Payload \<Rightarrow> Identifier" where
  "payloadIdentifier user =
     (if isStandaloneSignalingJoinSession user then
        \<lparr> q_sessionId = roomsessionid user,
          q_actorId = userid user,
          q_actorType = Some (if truthy_string (userid user)
                              then (if federated user = Some True
                                    then ACTOR_TYPE_FEDERATED_USERS else ACTOR_TYPE_USERS)
                              else ACTOR_TYPE_GUESTS) \<rparr>
      else
        \<lparr> q_sessionId = (if isInternalSignalingSession user
                          then sessionId user else nextcloudSessionId user),
          q_actorId = actorId user,
          q_actorType = actorType user \<rparr>)"

definition findOrCreateSession ::
  "finder \<Rightarrow> World \<Rightarrow> string \<Rightarrow> Payload \<Rightarrow> error + (Session \<times> World)" where
  "findOrCreateSession fp st token user =
     (case payloadSignalingSessionId user of
        None \<Rightarrow> Inl InvalidPayload
      | Some signalingSessionId \<Rightarrow>
          if signalingSessionId = [] then Inl InvalidPayload
          else
            (case getSession st (Some signalingSessionId) of
               Some knownSession \<Rightarrow> Inr (knownSession, st)
             | None \<Rightarrow>
                 (let ident = payloadIdentifier user;
                      attendee = fp (roster st) token ident;
                      st1 = st\<lparr> lookups := lookups st @ [(token, ident)] \<rparr>
                  in Inr (addSession st1
                       \<lparr> s_attendeeId = map_option p_attendeeId attendee,
                         s_token = token,
                         s_signalingSessionId = signalingSessionId,
                         s_sessionId = q_sessionId ident \<rparr>))))"

section \<open>Participant updates\<close>

definition noUpdate :: UpdatedData where
  "noUpdate = \<lparr> u_attendeeId = None, u_displayName = None, u_inCall = None, u_lastPing = None,
                u_permissions = None, u_participantType = None, u_sessionIds = None \<rparr>"

text \<open>\<^verbatim>\<open>[...new Set(xs)]\<close>: the elements of \<open>xs\<close> in the order they first occur.\<close>

definition uniq :: "'a list \<Rightarrow> 'a list" where
  "uniq xs = rev (remdups (rev xs))"

definition updateParticipantJoinedFromStandaloneSignaling ::
  "World \<Rightarrow> string \<Rightarrow> int \<Rightarrow> Payload \<Rightarrow> World" where
  "updateParticipantJoinedFromStandaloneSignaling st token attendeeId user =
     (case getParticipant st token attendeeId of
        None \<Rightarrow> st
      | Some participant \<Rightarrow>
          updateParticipant st token attendeeId
            (noUpdate\<lparr> u_attendeeId := Some attendeeId,
                       u_displayName := orElse (user_displayname user) (p_displayName participant),
                       u_sessionIds := Some (uniq (p_sessionIds participant @ [roomsessionid user])) \<rparr>))"

text \<open>
  The first loop of \<^verbatim>\<open>updateParticipantsFromInternalSignaling\<close>: the object
  \<^verbatim>\<open>participantsToUpdate\<close>, keyed by attendee id. The registry is not changed by it.
\<close>

fun participantsToUpdate ::
  "World \<Rightarrow> Payload list \<Rightarrow> (int \<rightharpoonup> UpdatedData) \<Rightarrow> (int \<rightharpoonup> UpdatedData)" where
  "participantsToUpdate st [] acc = acc"
| "participantsToUpdate st (user # users) acc =
     (case getSession st (sessionId user) of
        None \<Rightarrow> participantsToUpdate st users acc
      | Some session \<Rightarrow>
          (case s_attendeeId session of
             None \<Rightarrow> participantsToUpdate st users acc
           | Some attendeeId \<Rightarrow>
               if attendeeId = 0 then participantsToUpdate st users acc
               else
                 (case acc attendeeId of
                    None \<Rightarrow>
                      participantsToUpdate st users
                        (acc(attendeeId \<mapsto>
                           noUpdate\<lparr> u_attendeeId := Some attendeeId,
                                      u_inCall := inCall user,
                                      u_lastPing := lastPing user,
                                      u_permissions := participantPermissions user,
                                      u_sessionIds := Some [sessionId user] \<rparr>))
                  | Some payload \<Rightarrow>
                      participantsToUpdate st users
                        (acc(attendeeId \<mapsto>
                           payload\<lparr> u_sessionIds :=
                             map_option (\<lambda>ids. ids @ [sessionId user]) (u_sessionIds payload) \<rparr>)))))"

text \<open>
  The second loop, over the array \<^verbatim>\<open>participantsList(token)\<close> returned when the loop
  starts.
\<close>

fun commitParticipants ::
  "string \<Rightarrow> (int \<rightharpoonup> UpdatedData) \<Rightarrow> Participant list \<Rightarrow> World \<Rightarrow> World" where
  "commitParticipants token toUpdate [] st = st"
| "commitParticipants token toUpdate (participant # rest) st =
     (case toUpdate (p_attendeeId participant) of
        Some updatedData \<Rightarrow>
          commitParticipants token toUpdate rest
            (updateParticipant st token (p_attendeeId participant) updatedData)
      | None \<Rightarrow>
          if p_sessionIds participant \<noteq> [] then
            commitParticipants token toUpdate rest
              (updateParticipant st token (p_attendeeId participant)
                 (noUpdate\<lparr> u_attendeeId := Some (p_attendeeId participant),
                            u_inCall := Some CALL_FLAG_DISCONNECTED,
                            u_sessionIds := Some [] \<rparr>))
          else commitParticipants token toUpdate rest st)"

definition updateParticipantsFromInternalSignaling ::
  "World \<Rightarrow> string \<Rightarrow> Payload list \<Rightarrow> World" where
  "updateParticipantsFromInternalSignaling st token users =
     commitParticipants token (participantsToUpdate st users Map.empty)
       (participantsList st token) st"

text \<open>
  The loop variable, called \<^verbatim>\<open>sessionId\<close> in the source, is an element of the list of
  signaling session ids that left; it is \<open>signalingSessionId\<close> here.
\<close>

fun updateParticipantsLeftFromStandaloneSignaling ::
  "World \<Rightarrow> string \<Rightarrow> string list \<Rightarrow> World" where
  "updateParticipantsLeftFromStandaloneSignaling st token [] = st"
| "updateParticipantsLeftFromStandaloneSignaling st token (signalingSessionId # sessionIdsLeft) =
     (case getSession st (Some signalingSessionId) of
        None \<Rightarrow> updateParticipantsLeftFromStandaloneSignaling st token sessionIdsLeft
      | Some session \<Rightarrow>
          (case s_attendeeId session of
             None \<Rightarrow> updateParticipantsLeftFromStandaloneSignaling st token sessionIdsLeft
           | Some attendeeId \<Rightarrow>
               if attendeeId = 0
               then updateParticipantsLeftFromStandaloneSignaling st token sessionIdsLeft
               else
                 (case getParticipant st token attendeeId of
                    None \<Rightarrow> updateParticipantsLeftFromStandaloneSignaling st token sessionIdsLeft
                  | Some participant \<Rightarrow>
                      (let sessionIds =
                             filter (\<lambda>id. id \<noteq> Some signalingSessionId) (p_sessionIds participant)
                       in updateParticipantsLeftFromStandaloneSignaling
                            (updateParticipant st token attendeeId
                               (noUpdate\<lparr> u_sessionIds := Some sessionIds,
                                          u_inCall := Some (if sessionIds \<noteq> []
                                                            then p_inCall participant
                                                            else CALL_FLAG_DISCONNECTED) \<rparr>))
                            token sessionIdsLeft))))"

section \<open>The two entry points\<close>

text \<open>
  The loop of \<^verbatim>\<open>updateSessions\<close> over the batch, carrying \<^verbatim>\<open>hasUnknownSessions\<close>,
  \<^verbatim>\<open>currentSessionIds\<close> and the world. The branch of a standalone update payload is
  empty in the source (the call is commented out).
\<close>

fun updateSessionsLoop ::
  "finder \<Rightarrow> string \<Rightarrow> Payload list \<Rightarrow> bool \<times> string set \<times> World
     \<Rightarrow> error + (bool \<times> string set \<times> World)" where
  "updateSessionsLoop fp token [] acc = Inr acc"
| "updateSessionsLoop fp token (user # users) (hasUnknownSessions, currentSessionIds, st) =
     (case findOrCreateSession fp st token user of
        Inl e \<Rightarrow> Inl e
      | Inr (session, st1) \<Rightarrow>
          (let ids = insert (s_signalingSessionId session) currentSessionIds in
           case s_attendeeId session of
             None \<Rightarrow> updateSessionsLoop fp token users (True, ids, st1)
           | Some attendeeId \<Rightarrow>
               if attendeeId = 0 then updateSessionsLoop fp token users (True, ids, st1)
               else if isStandaloneSignalingJoinSession user then
                 updateSessionsLoop fp token users
                   (hasUnknownSessions, ids,
                    updateParticipantJoinedFromStandaloneSignaling st1 token attendeeId user)
               else if isStandaloneSignalingUpdateSession user then
                 updateSessionsLoop fp token users (hasUnknownSessions, ids, st1)
               else updateSessionsLoop fp token users (hasUnknownSessions, ids, st1)))"

text \<open>
  The loop over \<^verbatim>\<open>Object.keys(this.sessions)\<close> that deletes every session whose key is not
  in \<^verbatim>\<open>currentSessionIds\<close>.
\<close>

definition deleteSessionsNotIn :: "World \<Rightarrow> string set \<Rightarrow> World" where
  "deleteSessionsNotIn st currentSessionIds =
     st\<lparr> sessions := (\<lambda>k. if k \<in> currentSessionIds then sessions st k else None) \<rparr>"

definition updateSessions ::
  "finder \<Rightarrow> World \<Rightarrow> string \<Rightarrow> Payload list \<Rightarrow> error + (bool \<times> World)" where
  "updateSessions fp st token users =
     (case updateSessionsLoop fp token users (False, {}, st) of
        Inl e \<Rightarrow> Inl e
      | Inr (hasUnknownSessions, currentSessionIds, st1) \<Rightarrow>
          (case isInternalSignalingSessions users of
             Inl e \<Rightarrow> Inl e
           | Inr internal \<Rightarrow>
               if internal then
                 Inr (hasUnknownSessions,
                      deleteSessionsNotIn
                        (updateParticipantsFromInternalSignaling st1 token users)
                        currentSessionIds)
               else Inr (hasUnknownSessions, st1)))"

fun deleteSessions :: "World \<Rightarrow> string list \<Rightarrow> World" where
  "deleteSessions st [] = st"
| "deleteSessions st (signalingSessionId # rest) =
     deleteSessions (deleteSession st signalingSessionId) rest"

definition updateSessionsLeft :: "World \<Rightarrow> string \<Rightarrow> string list \<Rightarrow> World" where
  "updateSessionsLeft st token sessionIds =
     deleteSessions (updateParticipantsLeftFromStandaloneSignaling st token sessionIds) sessionIds"

text \<open>
  Modelled from the spec: \<^verbatim>\<open>updateParticipantsDisconnectedFromStandaloneSignaling\<close>, which
  the composable and the tests call and session.ts does not define: for every
  participant of the conversation with a session, one commit that clears \<^verbatim>\<open>inCall\<close> and
  has no other key.
\<close>

fun disconnectParticipants :: "string \<Rightarrow> Participant list \<Rightarrow> World \<Rightarrow> World" where
  "disconnectParticipants token [] st = st"
| "disconnectParticipants token (participant # rest) st =
     (if p_sessionIds participant \<noteq> [] then
        disconnectParticipants token rest
          (updateParticipant st token (p_attendeeId participant)
             (noUpdate\<lparr> u_inCall := Some CALL_FLAG_DISCONNECTED \<rparr>))
      else disconnectParticipants token rest st)"

definition updateParticipantsDisconnectedFromStandaloneSignaling :: "World \<Rightarrow> string \<Rightarrow> World" where
  "updateParticipantsDisconnectedFromStandaloneSignaling st token =
     disconnectParticipants token (participantsList st token) st"

text \<open>The commits a call made: those of the world after it that the world before it lacks.\<close>

definition issued :: "World \<Rightarrow> World \<Rightarrow> Command list" where
  "issued st st' = drop (length (commits st)) (commits st')"


section \<open>Derived notions used by the statements\<close>

text \<open>Every session is stored under its own signaling session id, as \<^verbatim>\<open>addSession\<close> stores it.\<close>

definition registry_ok :: "World \<Rightarrow> bool" where
  "registry_ok st = (\<forall>k s. sessions st k = Some s \<longrightarrow> s_signalingSessionId s = k)"

text \<open>The ids of the sessions a batch names.\<close>

definition batchIds :: "Payload list \<Rightarrow> string set" where
  "batchIds users = set (List.map_filter payloadSignalingSessionId users)"

text \<open>
  The attendee an entry of an internal batch resolves to: that of the session registered
  under its \<^verbatim>\<open>sessionId\<close>, when it has one (\<^verbatim>\<open>undefined\<close> and 0 are no attendee).
\<close>

definition resolvedAttendee :: "World \<Rightarrow> Payload \<Rightarrow> int option" where
  "resolvedAttendee st user =
     (case getSession st (sessionId user) of
        None \<Rightarrow> None
      | Some session \<Rightarrow>
          (case s_attendeeId session of
             None \<Rightarrow> None
           | Some attendeeId \<Rightarrow> if attendeeId = 0 then None else Some attendeeId))"

definition resolvedAttendees :: "World \<Rightarrow> Payload list \<Rightarrow> int set" where
  "resolvedAttendees st users = set (List.map_filter (resolvedAttendee st) users)"

text \<open>The entries of a batch that resolve to one attendee, in batch order.\<close>

definition entriesOf :: "World \<Rightarrow> Payload list \<Rightarrow> int \<Rightarrow> Payload list" where
  "entriesOf st users attendeeId = filter (\<lambda>u. resolvedAttendee st u = Some attendeeId) users"

text \<open>The session registered for an entry of a batch, and whether it lacks an attendee.\<close>

definition sessionOf :: "World \<Rightarrow> Payload \<Rightarrow> Session option" where
  "sessionOf st user = getSession st (payloadSignalingSessionId user)"

definition unknownSession :: "World \<Rightarrow> Payload \<Rightarrow> bool" where
  "unknownSession st user =
     (case sessionOf st user of
        None \<Rightarrow> False
      | Some session \<Rightarrow> \<not> truthy_number (s_attendeeId session))"

text \<open>
  The attendee the session of an id that left resolves to, as the leave loop reads it, and
  the ids of a list that left which resolve to one attendee.
\<close>

definition leftAttendee :: "World \<Rightarrow> string \<Rightarrow> int option" where
  "leftAttendee st signalingSessionId =
     (case getSession st (Some signalingSessionId) of
        None \<Rightarrow> None
      | Some session \<Rightarrow>
          (case s_attendeeId session of
             None \<Rightarrow> None
           | Some attendeeId \<Rightarrow> if attendeeId = 0 then None else Some attendeeId))"

definition leftIdsOf :: "World \<Rightarrow> string list \<Rightarrow> int \<Rightarrow> string set" where
  "leftIdsOf st sessionIdsLeft attendeeId =
     set (filter (\<lambda>k. leftAttendee st k = Some attendeeId) sessionIdsLeft)"

text \<open>
  The data model of the spec for the \<^verbatim>\<open>sessionIds\<close> of a participant: they are
  room-session ids, not signaling session ids. An id of a list under which a session is
  registered is the room-session id of that session (as with internal signaling, where a
  session has one id for both).
\<close>

definition holdsRoomSessionIds :: "World \<Rightarrow> string \<Rightarrow> bool" where
  "holdsRoomSessionIds st token =
     (\<forall>p\<in>set (roster st token). \<forall>k s.
        Some k \<in> set (p_sessionIds p) \<and> sessions st k = Some s \<longrightarrow> s_sessionId s = Some k)"

text \<open>What a run of \<^verbatim>\<open>updateSessions\<close> committed, or the error it threw.\<close>

definition committed :: "World \<Rightarrow> error + (bool \<times> World) \<Rightarrow> error + Command list" where
  "committed st r = (case r of Inl e \<Rightarrow> Inl e | Inr (h, st') \<Rightarrow> Inr (issued st st'))"

text \<open>The command that marks a participant disconnected from all devices.\<close>

definition disconnectCommand :: "string \<Rightarrow> int \<Rightarrow> Command" where
  "disconnectCommand token attendeeId =
     \<lparr> c_token = token, c_attendeeId = attendeeId,
       c_updatedData = noUpdate\<lparr> u_attendeeId := Some attendeeId,
                                 u_inCall := Some CALL_FLAG_DISCONNECTED,
                                 u_sessionIds := Some [] \<rparr> \<rparr>"

text \<open>
  The update \<^verbatim>\<open>participantsToUpdate\<close> holds for an attendee once an internal batch is read:
  \<^verbatim>\<open>inCall\<close>, \<^verbatim>\<open>lastPing\<close> and \<^verbatim>\<open>permissions\<close> of the first entry that resolves to the
  attendee, and the \<^verbatim>\<open>sessionId\<close>s of all its entries in batch order.
\<close>

definition groupedUpdate :: "World \<Rightarrow> Payload list \<Rightarrow> int \<Rightarrow> UpdatedData option" where
  "groupedUpdate st users attendeeId =
     (case entriesOf st users attendeeId of
        [] \<Rightarrow> None
      | first # others \<Rightarrow>
          Some (noUpdate\<lparr> u_attendeeId := Some attendeeId,
                          u_inCall := inCall first,
                          u_lastPing := lastPing first,
                          u_permissions := participantPermissions first,
                          u_sessionIds := Some (map sessionId (first # others)) \<rparr>))"

text \<open>
  The commit the second loop of \<^verbatim>\<open>updateParticipantsFromInternalSignaling\<close> makes for one
  participant of the roster, if any.
\<close>

definition commandFor :: "string \<Rightarrow> (int \<rightharpoonup> UpdatedData) \<Rightarrow> Participant \<Rightarrow> Command option" where
  "commandFor token toUpdate participant =
     (case toUpdate (p_attendeeId participant) of
        Some updatedData \<Rightarrow>
          Some \<lparr> c_token = token, c_attendeeId = p_attendeeId participant,
                 c_updatedData = updatedData \<rparr>
      | None \<Rightarrow>
          if p_sessionIds participant \<noteq> []
          then Some (disconnectCommand token (p_attendeeId participant))
          else None)"

text \<open>
  A batch of internal signaling: not empty, every entry with a \<^verbatim>\<open>roomId\<close> and none with the
  \<^verbatim>\<open>sessionid\<close> of a join payload.
\<close>

definition internalBatch :: "Payload list \<Rightarrow> bool" where
  "internalBatch users =
     (users \<noteq> [] \<and>
      list_all (\<lambda>u. isInternalSignalingSession u \<and> \<not> isStandaloneSignalingJoinSession u) users)"

text \<open>The world a run of \<^verbatim>\<open>updateSessions\<close> that returned has left; \<open>st\<close> for a run that threw.\<close>

definition worldOr :: "World \<Rightarrow> error + (bool \<times> World) \<Rightarrow> World" where
  "worldOr st r = (case r of Inl e \<Rightarrow> st | Inr (h, st') \<Rightarrow> st')"

section \<open>Concrete payloads, participants and worlds\<close>

definition emptyPayload :: Payload where
  "emptyPayload =
     \<lparr> roomId = None, sessionId = None, sessionid = None, roomsessionid = None, userid = None,
       federated = None, user_displayname = None, nextcloudSessionId = None, actorId = None,
       actorType = None, userId = None, inCall = None, lastPing = None,
       participantPermissions = None, participantType = None, displayName = None \<rparr>"

definition emptyWorld :: World where
  "emptyWorld = \<lparr> sessions = Map.empty, roster = (\<lambda>token. []), commits = [], lookups = [] \<rparr>"

definition TOKEN :: string where
  "TOKEN = ''TOKEN''"

text \<open>The first participant of the store's tests, with the sessions given.\<close>

definition user1 :: "string option list \<Rightarrow> Participant" where
  "user1 ids =
     \<lparr> p_attendeeId = 1, p_actorId = ''user1'', p_actorType = ACTOR_TYPE_USERS,
       p_sessionIds = ids, p_inCall = 7, p_displayName = Some ''User 1'',
       p_participantType = Some 1, p_permissions = Some 254, p_lastPing = Some 0 \<rparr>"

definition user2 :: "string option list \<Rightarrow> Participant" where
  "user2 ids =
     \<lparr> p_attendeeId = 2, p_actorId = ''user2'', p_actorType = ACTOR_TYPE_USERS,
       p_sessionIds = ids, p_inCall = 7, p_displayName = Some ''User 2'',
       p_participantType = Some 3, p_permissions = Some 254, p_lastPing = Some 0 \<rparr>"

text \<open>A session of the registry, as \<^verbatim>\<open>findOrCreateSession\<close> builds it.\<close>

definition mkSession :: "int option \<Rightarrow> string \<Rightarrow> string option \<Rightarrow> Session" where
  "mkSession attendeeId signalingSessionId roomSessionId =
     \<lparr> s_attendeeId = attendeeId, s_token = TOKEN,
       s_signalingSessionId = signalingSessionId, s_sessionId = roomSessionId \<rparr>"

text \<open>An entry of an internal batch, as in the store's tests.\<close>

definition internalEntry :: "string \<Rightarrow> string \<Rightarrow> Payload" where
  "internalEntry actor sid =
     emptyPayload\<lparr> roomId := Some 1, sessionId := Some sid, actorId := Some actor,
                   actorType := Some ACTOR_TYPE_USERS, userId := Some actor,
                   inCall := Some 7, lastPing := Some 1717192800,
                   participantPermissions := Some 254 \<rparr>"

text \<open>A standalone join payload: signaling session id, room-session id, user id.\<close>

definition joinEntry :: "string \<Rightarrow> string \<Rightarrow> string \<Rightarrow> Payload" where
  "joinEntry sig room uid =
     emptyPayload\<lparr> sessionid := Some sig, roomsessionid := Some room, userid := Some uid \<rparr>"

text \<open>A standalone update payload, as in the store's tests.\<close>

definition updateEntry :: "string \<Rightarrow> string \<Rightarrow> Payload" where
  "updateEntry uid sid =
     emptyPayload\<lparr> sessionId := Some sid, userId := Some uid, inCall := Some 7,
                   participantType := Some 1, lastPing := Some 1717192800,
                   participantPermissions := Some 254 \<rparr>"

text \<open>A world where session \<^verbatim>\<open>session-id-1\<close> of attendee 1 is registered.\<close>

definition registered1 :: World where
  "registered1 =
     emptyWorld\<lparr> sessions := [''session-id-1'' \<mapsto>
                    mkSession (Some 1) ''session-id-1'' (Some ''session-id-1'')],
                 roster := (\<lambda>token. [user1 [Some ''session-id-1'']]) \<rparr>"

text \<open>
  The world after attendee 1, who had no session, joined through standalone signaling
  with signaling session \<^verbatim>\<open>sig-1\<close> and room session \<^verbatim>\<open>room-1\<close>.
\<close>

definition joined1 :: World where
  "joined1 =
     worldOr emptyWorld
       (updateSessions findParticipant (emptyWorld\<lparr> roster := (\<lambda>token. [user1 []]) \<rparr>) TOKEN
          [joinEntry ''sig-1'' ''room-1'' ''user1''])"

text \<open>
  A world where attendees 1 and 2 have one registered session each, and the internal
  batch that names only the session of attendee 2.
\<close>

definition twoSessions :: World where
  "twoSessions =
     emptyWorld\<lparr> sessions := [''session-id-1'' \<mapsto>
                      mkSession (Some 1) ''session-id-1'' (Some ''session-id-1''),
                    ''session-id-2'' \<mapsto>
                      mkSession (Some 2) ''session-id-2'' (Some ''session-id-2'')],
                 roster := (\<lambda>token. [user1 [Some ''session-id-1''],
                                       user2 [Some ''session-id-2'']]) \<rparr>"

definition snapshot2 :: "Payload list" where
  "snapshot2 = [internalEntry ''user2'' ''session-id-2'']"

text \<open>
  The internal batch of the store's tests for two attendees without sessions: one
  session of attendee 1, two of attendee 2.
\<close>

definition noSessions :: World where
  "noSessions = emptyWorld\<lparr> roster := (\<lambda>token. [user1 [], user2 []]) \<rparr>"

definition snapshot123 :: "Payload list" where
  "snapshot123 = [internalEntry ''user1'' ''session-id-1'',
                  internalEntry ''user2'' ''session-id-2'',
                  internalEntry ''user2'' ''session-id-3'']"

text \<open>
  A world where the session of attendee 1 is registered and the participant has been
  deleted from the roster since.
\<close>

definition deleted1 :: World where
  "deleted1 =
     emptyWorld\<lparr> sessions := [''session-id-1'' \<mapsto>
                      mkSession (Some 1) ''session-id-1'' (Some ''session-id-1'')] \<rparr>"

text \<open>
  A world after attendees 1 and 2 joined through standalone signaling, each with a
  signaling session and a different room session.
\<close>

definition joined12 :: World where
  "joined12 =
     emptyWorld\<lparr> sessions := [''sig-1'' \<mapsto> mkSession (Some 1) ''sig-1'' (Some ''room-1''),
                              ''sig-2'' \<mapsto> mkSession (Some 2) ''sig-2'' (Some ''room-2'')],
                 roster := (\<lambda>token. [user1 [Some ''room-1''], user2 [Some ''room-2'']]) \<rparr>"

section \<open>Classification\<close>

text \<open>
  C6. The three classifiers are mutually exclusive and collectively exhaustive over the
  three payload types: for a payload of one of the three shapes exactly one of
  \<^verbatim>\<open>isInternalSignalingSession\<close>, \<^verbatim>\<open>isStandaloneSignalingJoinSession\<close> and
  \<^verbatim>\<open>isStandaloneSignalingUpdateSession\<close> holds.
\<close>

theorem classifiers_exactly_one:
  assumes "InternalSignalingSession item \<or> StandaloneSignalingJoinSession item
           \<or> StandaloneSignalingUpdateSession item"
  shows "(isInternalSignalingSession item \<and> \<not> isStandaloneSignalingJoinSession item
            \<and> \<not> isStandaloneSignalingUpdateSession item)
       \<or> (\<not> isInternalSignalingSession item \<and> isStandaloneSignalingJoinSession item
            \<and> \<not> isStandaloneSignalingUpdateSession item)
       \<or> (\<not> isInternalSignalingSession item \<and> \<not> isStandaloneSignalingJoinSession item
            \<and> isStandaloneSignalingUpdateSession item)"
  using assms
  by (auto simp: InternalSignalingSession_def StandaloneSignalingJoinSession_def
        StandaloneSignalingUpdateSession_def isInternalSignalingSession_def
        isStandaloneSignalingJoinSession_def isStandaloneSignalingUpdateSession_def)

theorem classifiers_exactly_one_witness:
  "StandaloneSignalingJoinSession (joinEntry ''sig-1'' ''room-1'' ''user1'')
   \<and> \<not> isInternalSignalingSession (joinEntry ''sig-1'' ''room-1'' ''user1'')
   \<and> isStandaloneSignalingJoinSession (joinEntry ''sig-1'' ''room-1'' ''user1'')
   \<and> \<not> isStandaloneSignalingUpdateSession (joinEntry ''sig-1'' ''room-1'' ''user1'')"
proof -
  have shape: "StandaloneSignalingJoinSession (joinEntry ''sig-1'' ''room-1'' ''user1'')"
    by (simp add: StandaloneSignalingJoinSession_def joinEntry_def emptyPayload_def)
  have "\<not> isInternalSignalingSession (joinEntry ''sig-1'' ''room-1'' ''user1'')"
    by (simp add: isInternalSignalingSession_def joinEntry_def emptyPayload_def)
  with shape classifiers_exactly_one [of "joinEntry ''sig-1'' ''room-1'' ''user1''"]
  show ?thesis
    by (simp add: isStandaloneSignalingJoinSession_def isStandaloneSignalingUpdateSession_def
          joinEntry_def emptyPayload_def)
qed

section \<open>The registry: finding and creating sessions\<close>

lemma getSession_Some: "k \<noteq> [] \<Longrightarrow> getSession st (Some k) = sessions st k"
  by (simp add: getSession_def)

text \<open>
  C5. \<^verbatim>\<open>findOrCreateSession\<close> is idempotent: when the id of the payload is registered, the
  call returns the registered session and the world unchanged (no session added or
  changed, no \<^verbatim>\<open>findParticipant\<close> query made); and a second call with the same payload
  returns the session of the first and changes nothing, whatever the roster answers.
\<close>

theorem findOrCreateSession_idempotent:
  "(payloadSignalingSessionId user = Some k \<and> k \<noteq> [] \<and> sessions st k = Some known
      \<longrightarrow> findOrCreateSession fp st token user = Inr (known, st))
   \<and> (findOrCreateSession fp st token user = Inr (session, st1)
      \<longrightarrow> findOrCreateSession fp' st1 token' user = Inr (session, st1))"
  by (auto simp: findOrCreateSession_def addSession_def getSession_Some Let_def
           split: option.splits if_splits)

theorem findOrCreateSession_idempotent_witness:
  "payloadSignalingSessionId (internalEntry ''user1'' ''session-id-1'') = Some ''session-id-1''
   \<and> sessions (emptyWorld\<lparr> sessions := [''session-id-1'' \<mapsto>
         mkSession (Some 1) ''session-id-1'' (Some ''session-id-1'')] \<rparr>) ''session-id-1''
       = Some (mkSession (Some 1) ''session-id-1'' (Some ''session-id-1''))
   \<and> findOrCreateSession findParticipant
       (emptyWorld\<lparr> sessions := [''session-id-1'' \<mapsto>
         mkSession (Some 1) ''session-id-1'' (Some ''session-id-1'')] \<rparr>)
       TOKEN (internalEntry ''user1'' ''session-id-1'')
     = Inr (mkSession (Some 1) ''session-id-1'' (Some ''session-id-1''),
            emptyWorld\<lparr> sessions := [''session-id-1'' \<mapsto>
              mkSession (Some 1) ''session-id-1'' (Some ''session-id-1'')] \<rparr>)"
proof -
  have id: "payloadSignalingSessionId (internalEntry ''user1'' ''session-id-1'')
              = Some ''session-id-1''"
    by (simp add: payloadSignalingSessionId_def isStandaloneSignalingJoinSession_def
          internalEntry_def emptyPayload_def)
  have known: "sessions (emptyWorld\<lparr> sessions := [''session-id-1'' \<mapsto>
         mkSession (Some 1) ''session-id-1'' (Some ''session-id-1'')] \<rparr>) ''session-id-1''
       = Some (mkSession (Some 1) ''session-id-1'' (Some ''session-id-1''))"
    by simp
  from id known
    findOrCreateSession_idempotent [of "internalEntry ''user1'' ''session-id-1''"
      "''session-id-1''" _ "mkSession (Some 1) ''session-id-1'' (Some ''session-id-1'')"
      findParticipant TOKEN]
  show ?thesis by simp
qed

section \<open>The loop of updateSessions\<close>


lemma updateParticipant_sessions [simp]:
  "sessions (updateParticipant st token a d) = sessions st"
  by (simp add: updateParticipant_def)

lemma joined_sessions [simp]:
  "sessions (updateParticipantJoinedFromStandaloneSignaling st token a u) = sessions st"
  by (simp add: updateParticipantJoinedFromStandaloneSignaling_def split: option.splits)

lemma findOrCreateSession_Inl:
  "findOrCreateSession fp st token u = Inl e
     \<longleftrightarrow> e = InvalidPayload \<and> \<not> truthy_string (payloadSignalingSessionId u)"
  by (auto simp: findOrCreateSession_def truthy_string_def addSession_def Let_def
           split: option.splits)

lemma findOrCreateSession_known:
  "payloadSignalingSessionId u = Some k \<Longrightarrow> k \<noteq> [] \<Longrightarrow> sessions st k = Some x
     \<Longrightarrow> findOrCreateSession fp st token u = Inr (x, st)"
  by (simp add: findOrCreateSession_def getSession_Some)

lemma findOrCreateSession_new:
  "payloadSignalingSessionId u = Some k \<Longrightarrow> k \<noteq> [] \<Longrightarrow> sessions st k = None
     \<Longrightarrow> findOrCreateSession fp st token u =
         Inr (\<lparr> s_attendeeId = map_option p_attendeeId (fp (roster st) token (payloadIdentifier u)),
                s_token = token, s_signalingSessionId = k,
                s_sessionId = q_sessionId (payloadIdentifier u) \<rparr>,
              st\<lparr> lookups := lookups st @ [(token, payloadIdentifier u)],
                  sessions := (sessions st)(k \<mapsto>
                    \<lparr> s_attendeeId = map_option p_attendeeId (fp (roster st) token (payloadIdentifier u)),
                      s_token = token, s_signalingSessionId = k,
                      s_sessionId = q_sessionId (payloadIdentifier u) \<rparr>) \<rparr>)"
  by (simp add: findOrCreateSession_def getSession_Some addSession_def Let_def)

lemma findOrCreateSession_Inr:
  assumes "findOrCreateSession fp st token u = Inr (s, st1)"
  shows "\<exists>k. payloadSignalingSessionId u = Some k \<and> k \<noteq> []
           \<and> sessions st1 = (sessions st)(k \<mapsto> s)
           \<and> (sessions st k = None \<longrightarrow> s_signalingSessionId s = k)
           \<and> (sessions st k \<noteq> None \<longrightarrow> sessions st k = Some s)
           \<and> roster st1 = roster st \<and> commits st1 = commits st"
proof (cases "payloadSignalingSessionId u")
  case None
  with assms show ?thesis by (simp add: findOrCreateSession_def)
next
  case (Some k)
  show ?thesis
  proof (cases "k = []")
    case True
    with Some assms show ?thesis by (simp add: findOrCreateSession_def)
  next
    case False
    show ?thesis
    proof (cases "sessions st k")
      case None
      from findOrCreateSession_new [OF Some False None, of fp token] assms
      have "s_signalingSessionId s = k \<and> sessions st1 = (sessions st)(k \<mapsto> s)
            \<and> roster st1 = roster st \<and> commits st1 = commits st"
        by auto
      with Some False None show ?thesis by simp
    next
      case (Some x)
      from findOrCreateSession_known [OF \<open>payloadSignalingSessionId u = Some k\<close> False Some, of fp token]
        assms
      have "x = s" "st1 = st" by simp_all
      with Some \<open>payloadSignalingSessionId u = Some k\<close> False show ?thesis
        by (simp add: map_upd_triv)
    qed
  qed
qed


lemma loop_Cons:
  assumes "updateSessionsLoop fp token (u # us) (h, ids, st) = Inr r"
  obtains s st1 st2 where
    "findOrCreateSession fp st token u = Inr (s, st1)"
    "sessions st2 = sessions st1"
    "\<not> isStandaloneSignalingJoinSession u \<or> \<not> truthy_number (s_attendeeId s) \<longrightarrow> st2 = st1"
    "updateSessionsLoop fp token us
       (h \<or> \<not> truthy_number (s_attendeeId s), insert (s_signalingSessionId s) ids, st2) = Inr r"
proof (cases "findOrCreateSession fp st token u")
  case (Inl e)
  with assms show ?thesis by simp
next
  case (Inr p)
  obtain s st1 where p: "p = (s, st1)" by (cases p)
  show ?thesis
  proof (cases "s_attendeeId s")
    case None
    with assms Inr p
    have "updateSessionsLoop fp token us (True, insert (s_signalingSessionId s) ids, st1) = Inr r"
      by (simp add: Let_def)
    with None Inr p that [of s st1 st1] show ?thesis by (simp add: truthy_number_def)
  next
    case (Some a)
    show ?thesis
    proof (cases "a = 0")
      case True
      with assms Inr p Some
      have "updateSessionsLoop fp token us (True, insert (s_signalingSessionId s) ids, st1) = Inr r"
        by (simp add: Let_def)
      with True Some Inr p that [of s st1 st1] show ?thesis by (simp add: truthy_number_def)
    next
      case False
      show ?thesis
      proof (cases "isStandaloneSignalingJoinSession u")
        case j: True
        with assms Inr p Some False
        have "updateSessionsLoop fp token us (h, insert (s_signalingSessionId s) ids,
                updateParticipantJoinedFromStandaloneSignaling st1 token a u) = Inr r"
          by (simp add: Let_def)
        with False Some j Inr p
          that [of s st1 "updateParticipantJoinedFromStandaloneSignaling st1 token a u"]
        show ?thesis by (simp add: truthy_number_def)
      next
        case j: False
        with assms Inr p Some False
        have "updateSessionsLoop fp token us (h, insert (s_signalingSessionId s) ids, st1) = Inr r"
          by (simp add: Let_def)
        with False Some j Inr p that [of s st1 st1] show ?thesis by (simp add: truthy_number_def)
      qed
    qed
  qed
qed

lemma batchIds_Nil [simp]: "batchIds [] = {}"
  by (simp add: batchIds_def)

lemma batchIds_Cons:
  "batchIds (u # us) =
     (case payloadSignalingSessionId u of None \<Rightarrow> batchIds us | Some k \<Rightarrow> insert k (batchIds us))"
  by (simp add: batchIds_def split: option.splits)

lemma findOrCreateSession_ok:
  assumes "registry_ok st" "findOrCreateSession fp st token u = Inr (s, st1)"
  shows "registry_ok st1 \<and> payloadSignalingSessionId u = Some (s_signalingSessionId s)
         \<and> s_signalingSessionId s \<noteq> []
         \<and> sessions st1 = (sessions st)(s_signalingSessionId s \<mapsto> s)
         \<and> roster st1 = roster st \<and> commits st1 = commits st"
proof -
  from findOrCreateSession_Inr [OF assms(2)] obtain k where
    k1: "payloadSignalingSessionId u = Some k" and k2: "k \<noteq> []"
    and k3: "sessions st1 = (sessions st)(k \<mapsto> s)"
    and k4: "sessions st k = None \<longrightarrow> s_signalingSessionId s = k"
    and k5: "sessions st k \<noteq> None \<longrightarrow> sessions st k = Some s"
    and k6: "roster st1 = roster st" and k7: "commits st1 = commits st"
    by (elim exE conjE)
  have key: "s_signalingSessionId s = k"
  proof (cases "sessions st k")
    case None
    with k4 show ?thesis by simp
  next
    case (Some x)
    with k5 have "sessions st k = Some s" by simp
    with assms(1) show ?thesis by (simp add: registry_ok_def)
  qed
  have "registry_ok st1"
    unfolding registry_ok_def
  proof (intro allI impI)
    fix k' x assume "sessions st1 k' = Some x"
    with k3 key assms(1) show "s_signalingSessionId x = k'"
      by (cases "k' = k") (simp_all add: registry_ok_def)
  qed
  with key k1 k2 k3 k6 k7 show ?thesis by simp
qed


lemma loop_registry:
  assumes "registry_ok st" "updateSessionsLoop fp token users (h, ids, st) = Inr (h', ids', st')"
  shows "registry_ok st' \<and> ids' = ids \<union> batchIds users
         \<and> (\<forall>k x. sessions st k = Some x \<longrightarrow> sessions st' k = Some x)
         \<and> dom (sessions st') = dom (sessions st) \<union> batchIds users"
  using assms
proof (induction users arbitrary: h ids st)
  case Nil
  then show ?case by simp
next
  case (Cons u us)
  from Cons.prems(2) obtain s st1 st2 where step:
    "findOrCreateSession fp st token u = Inr (s, st1)"
    "sessions st2 = sessions st1"
    "updateSessionsLoop fp token us
       (h \<or> \<not> truthy_number (s_attendeeId s), insert (s_signalingSessionId s) ids, st2)
       = Inr (h', ids', st')"
    by (rule loop_Cons)
  from findOrCreateSession_ok [OF Cons.prems(1) step(1)] have
    f1: "registry_ok st1" and f2: "payloadSignalingSessionId u = Some (s_signalingSessionId s)"
    and f3: "sessions st1 = (sessions st)(s_signalingSessionId s \<mapsto> s)"
    by simp_all
  from f1 step(2) have ok2: "registry_ok st2" by (simp add: registry_ok_def)
  from Cons.IH [OF ok2 step(3)] have
    i1: "registry_ok st'" and i2: "ids' = insert (s_signalingSessionId s) ids \<union> batchIds us"
    and i3: "\<forall>k x. sessions st2 k = Some x \<longrightarrow> sessions st' k = Some x"
    and i4: "dom (sessions st') = dom (sessions st2) \<union> batchIds us"
    by simp_all
  have old: "\<forall>k x. sessions st k = Some x \<longrightarrow> sessions st' k = Some x"
  proof (intro allI impI)
    fix k x assume a: "sessions st k = Some x"
    have "sessions st2 k = Some x"
    proof (cases "k = s_signalingSessionId s")
      case True
      from findOrCreateSession_Inr [OF step(1)] f2 a True have "x = s" by auto
      with True f3 step(2) show ?thesis by simp
    next
      case False
      with a f3 step(2) show ?thesis by simp
    qed
    with i3 show "sessions st' k = Some x" by simp
  qed
  from i4 f3 step(2) f2
  have "dom (sessions st') = dom (sessions st) \<union> batchIds (u # us)"
    by (simp add: batchIds_Cons)
  moreover from i2 f2 have "ids' = ids \<union> batchIds (u # us)"
    by (simp add: batchIds_Cons)
  ultimately show ?case using i1 old by simp
qed

lemma unknownSession_eq:
  "payloadSignalingSessionId u = Some k \<Longrightarrow> k \<noteq> [] \<Longrightarrow> sessions st k = Some s
     \<Longrightarrow> unknownSession st u = (\<not> truthy_number (s_attendeeId s))"
  by (simp add: unknownSession_def sessionOf_def getSession_Some)

lemma loop_flag:
  assumes "registry_ok st" "updateSessionsLoop fp token users (h, ids, st) = Inr (h', ids', st')"
  shows "h' = (h \<or> (\<exists>u\<in>set users. unknownSession st' u))"
  using assms
proof (induction users arbitrary: h ids st)
  case Nil
  then show ?case by simp
next
  case (Cons u us)
  from Cons.prems(2) obtain s st1 st2 where step:
    "findOrCreateSession fp st token u = Inr (s, st1)"
    "sessions st2 = sessions st1"
    "updateSessionsLoop fp token us
       (h \<or> \<not> truthy_number (s_attendeeId s), insert (s_signalingSessionId s) ids, st2)
       = Inr (h', ids', st')"
    by (rule loop_Cons)
  from findOrCreateSession_ok [OF Cons.prems(1) step(1)] have
    f1: "registry_ok st1" and f2: "payloadSignalingSessionId u = Some (s_signalingSessionId s)"
    and f3: "s_signalingSessionId s \<noteq> []"
    and f4: "sessions st1 = (sessions st)(s_signalingSessionId s \<mapsto> s)"
    by simp_all
  from f1 step(2) have ok2: "registry_ok st2" by (simp add: registry_ok_def)
  from f4 step(2) have "sessions st2 (s_signalingSessionId s) = Some s" by simp
  with loop_registry [OF ok2 step(3)]
  have "sessions st' (s_signalingSessionId s) = Some s" by simp
  with f2 f3 have "unknownSession st' u = (\<not> truthy_number (s_attendeeId s))"
    by (simp add: unknownSession_eq)
  with Cons.IH [OF ok2 step(3)] show ?case by auto
qed

lemma loop_returns:
  assumes "\<forall>u\<in>set users. truthy_string (payloadSignalingSessionId u)"
  shows "\<exists>r. updateSessionsLoop fp token users (h, ids, st) = Inr r"
  using assms
proof (induction users arbitrary: h ids st)
  case Nil
  show ?case by simp
next
  case (Cons u us)
  then have "\<forall>e. findOrCreateSession fp st token u \<noteq> Inl e"
    by (simp add: findOrCreateSession_Inl)
  then obtain s st1 where f: "findOrCreateSession fp st token u = Inr (s, st1)"
    by (cases "findOrCreateSession fp st token u") auto
  from Cons have ih: "\<And>h ids st. \<exists>r. updateSessionsLoop fp token us (h, ids, st) = Inr r"
    by simp
  show ?case
  proof (cases "s_attendeeId s")
    case None
    with f ih show ?thesis by (simp add: Let_def)
  next
    case (Some a)
    with f ih show ?thesis by (simp add: Let_def)
  qed
qed

lemma loop_no_join:
  assumes "\<forall>u\<in>set users. \<not> isStandaloneSignalingJoinSession u"
    "updateSessionsLoop fp token users (h, ids, st) = Inr (h', ids', st')"
  shows "roster st' = roster st \<and> commits st' = commits st"
  using assms
proof (induction users arbitrary: h ids st)
  case Nil
  then show ?case by simp
next
  case (Cons u us)
  from Cons.prems(2) obtain s st1 st2 where step:
    "findOrCreateSession fp st token u = Inr (s, st1)"
    "\<not> isStandaloneSignalingJoinSession u \<or> \<not> truthy_number (s_attendeeId s) \<longrightarrow> st2 = st1"
    "updateSessionsLoop fp token us
       (h \<or> \<not> truthy_number (s_attendeeId s), insert (s_signalingSessionId s) ids, st2)
       = Inr (h', ids', st')"
    by (rule loop_Cons)
  from Cons.prems(1) step(2) have "st2 = st1" by simp
  moreover from findOrCreateSession_Inr [OF step(1)]
  have "roster st1 = roster st \<and> commits st1 = commits st" by auto
  moreover from Cons.IH [OF _ step(3)] Cons.prems(1)
  have "roster st' = roster st2 \<and> commits st' = commits st2" by simp
  ultimately show ?case by simp
qed

section \<open>Internal signaling: grouping and commits\<close>


lemma ptu_None:
  "resolvedAttendee st u = None
     \<Longrightarrow> participantsToUpdate st (u # us) acc = participantsToUpdate st us acc"
  by (auto simp: resolvedAttendee_def split: option.splits if_splits)

lemma ptu_Some:
  "resolvedAttendee st u = Some b
     \<Longrightarrow> participantsToUpdate st (u # us) acc =
         participantsToUpdate st us
           (acc(b \<mapsto> (case acc b of
                None \<Rightarrow> noUpdate\<lparr> u_attendeeId := Some b, u_inCall := inCall u,
                                   u_lastPing := lastPing u,
                                   u_permissions := participantPermissions u,
                                   u_sessionIds := Some [sessionId u] \<rparr>
              | Some d \<Rightarrow> d\<lparr> u_sessionIds :=
                                map_option (\<lambda>ids. ids @ [sessionId u]) (u_sessionIds d) \<rparr>)))"
  by (auto simp: resolvedAttendee_def split: option.splits if_splits)

lemma entriesOf_Nil [simp]: "entriesOf st [] a = []"
  by (simp add: entriesOf_def)

lemma entriesOf_Cons:
  "entriesOf st (u # us) a =
     (if resolvedAttendee st u = Some a then u # entriesOf st us a else entriesOf st us a)"
  by (simp add: entriesOf_def)

lemma ptu_general:
  "participantsToUpdate st users acc a =
     (case acc a of
        Some d \<Rightarrow> Some (d\<lparr> u_sessionIds :=
                    map_option (\<lambda>ids. ids @ map sessionId (entriesOf st users a)) (u_sessionIds d) \<rparr>)
      | None \<Rightarrow> groupedUpdate st users a)"
proof (induction users arbitrary: acc)
  case Nil
  show ?case
    by (cases "acc a") (simp_all add: groupedUpdate_def option.map_ident)
next
  case (Cons u us)
  show ?case
  proof (cases "resolvedAttendee st u")
    case None
    then show ?thesis
      by (simp add: ptu_None Cons.IH entriesOf_Cons groupedUpdate_def
            del: participantsToUpdate.simps split: option.splits)
  next
    case (Some b)
    show ?thesis
    proof (cases "a = b")
      case False
      with Some show ?thesis
        by (simp add: ptu_Some Cons.IH entriesOf_Cons groupedUpdate_def
              del: participantsToUpdate.simps split: option.splits)
    next
      case True
      with Some have r: "resolvedAttendee st u = Some a" by simp
      show ?thesis
      proof (cases "acc a")
        case None
        with r show ?thesis
          by (simp add: ptu_Some Cons.IH entriesOf_Cons groupedUpdate_def noUpdate_def
                del: participantsToUpdate.simps)
      next
        case d: (Some d)
        with r show ?thesis
          by (cases "u_sessionIds d")
             (simp_all add: ptu_Some Cons.IH entriesOf_Cons del: participantsToUpdate.simps)
      qed
    qed
  qed
qed

lemma ptu_empty: "participantsToUpdate st users Map.empty a = groupedUpdate st users a"
  by (simp add: ptu_general)

lemma set_map_filter:
  "set (List.map_filter f xs) = {y. \<exists>x\<in>set xs. f x = Some y}"
  by (induction xs) (auto split: option.splits)

lemma groupedUpdate_None:
  "groupedUpdate st users a = None \<longleftrightarrow> a \<notin> resolvedAttendees st users"
proof -
  have "entriesOf st users a = [] \<longleftrightarrow> a \<notin> resolvedAttendees st users"
    by (auto simp: entriesOf_def resolvedAttendees_def filter_empty_conv set_map_filter)
  then show ?thesis
    by (cases "entriesOf st users a") (simp_all add: groupedUpdate_def)
qed


lemma updateParticipant_commits [simp]:
  "commits (updateParticipant st token a d)
     = commits st @ [\<lparr> c_token = token, c_attendeeId = a, c_updatedData = d \<rparr>]"
  by (simp add: updateParticipant_def)

lemma commitParticipants_commits:
  "commits (commitParticipants token m ps st) = commits st @ List.map_filter (commandFor token m) ps"
proof (induction ps arbitrary: st)
  case Nil
  show ?case by simp
next
  case (Cons p ps)
  show ?case
  proof (cases "m (p_attendeeId p)")
    case None
    then show ?thesis
      by (simp add: Cons.IH commandFor_def disconnectCommand_def)
  next
    case (Some d)
    then show ?thesis
      by (simp add: Cons.IH commandFor_def)
  qed
qed

lemma commitParticipants_sessions [simp]:
  "sessions (commitParticipants token m ps st) = sessions st"
  by (induction ps arbitrary: st) (simp_all split: option.splits)

lemma commandFor_attendee:
  "commandFor token m p = Some c \<Longrightarrow> c_attendeeId c = p_attendeeId p"
  by (auto simp: commandFor_def disconnectCommand_def split: option.splits if_splits)

lemma commands_absent:
  "a \<notin> p_attendeeId ` set ps
     \<Longrightarrow> filter (\<lambda>c. c_attendeeId c = a) (List.map_filter (commandFor token m) ps) = []"
proof (induction ps)
  case Nil
  show ?case by simp
next
  case (Cons q qs)
  then show ?case
    by (cases "commandFor token m q") (auto dest: commandFor_attendee)
qed

lemma commands_present:
  assumes "distinct (map p_attendeeId ps)" "p \<in> set ps"
  shows "filter (\<lambda>c. c_attendeeId c = p_attendeeId p) (List.map_filter (commandFor token m) ps)
           = (case commandFor token m p of None \<Rightarrow> [] | Some c \<Rightarrow> [c])"
  using assms
proof (induction ps)
  case Nil
  then show ?case by simp
next
  case (Cons q qs)
  show ?case
  proof (cases "q = p")
    case True
    from Cons.prems(1) True have "p_attendeeId p \<notin> p_attendeeId ` set qs" by simp
    from commands_absent [OF this, of token m] True show ?thesis
      by (cases "commandFor token m p") (auto dest: commandFor_attendee)
  next
    case False
    with Cons.prems have in_qs: "p \<in> set qs" and d: "distinct (map p_attendeeId qs)"
      and ne: "p_attendeeId q \<noteq> p_attendeeId p"
      by auto
    from Cons.IH [OF d in_qs] ne show ?thesis
      by (cases "commandFor token m q") (auto dest: commandFor_attendee)
  qed
qed

lemma internalBatch_entry:
  "internalBatch users \<Longrightarrow> u \<in> set users
     \<Longrightarrow> \<not> isStandaloneSignalingJoinSession u \<and> roomId u \<noteq> None
         \<and> payloadSignalingSessionId u = sessionId u"
  by (auto simp: internalBatch_def list_all_iff payloadSignalingSessionId_def
        isInternalSignalingSession_def)

lemma internalBatch_head:
  "internalBatch users \<Longrightarrow> isInternalSignalingSessions users = Inr True"
  by (cases users)
     (auto simp: internalBatch_def isInternalSignalingSessions_def isInternalSignalingSession_def)

lemma batchIds_mem:
  "k \<in> batchIds users \<longleftrightarrow> (\<exists>u\<in>set users. payloadSignalingSessionId u = Some k)"
  by (auto simp: batchIds_def set_map_filter)

lemma updateSessions_Inr:
  assumes "updateSessions fp st token users = Inr (h, st')"
  obtains ids st1 internal where
    "updateSessionsLoop fp token users (False, {}, st) = Inr (h, ids, st1)"
    "isInternalSignalingSessions users = Inr internal"
    "st' = (if internal
            then deleteSessionsNotIn (updateParticipantsFromInternalSignaling st1 token users) ids
            else st1)"
proof (cases "updateSessionsLoop fp token users (False, {}, st)")
  case (Inl e)
  with assms show ?thesis by (simp add: updateSessions_def)
next
  case (Inr r)
  obtain h1 ids st1 where r: "r = (h1, ids, st1)" by (cases r)
  show ?thesis
  proof (cases "isInternalSignalingSessions users")
    case (Inl e)
    with assms Inr r show ?thesis by (simp add: updateSessions_def)
  next
    case i: (Inr internal)
    with assms Inr r have "h1 = h"
      and "st' = (if internal
            then deleteSessionsNotIn (updateParticipantsFromInternalSignaling st1 token users) ids
            else st1)"
      by (simp_all add: updateSessions_def split: if_splits)
    with Inr r i that show ?thesis by simp
  qed
qed

lemma updateSessions_internal:
  assumes ok: "registry_ok st" and batch: "internalBatch users"
    and run: "updateSessions fp st token users = Inr (h, st')"
  shows "issued st st' = List.map_filter (commandFor token (groupedUpdate st' users)) (roster st token)
         \<and> (\<forall>k. k \<notin> batchIds users \<longrightarrow> sessions st' k = None)
         \<and> (\<forall>k\<in>batchIds users. sessions st' k \<noteq> None)"
proof -
  from run obtain ids st1 internal where
    loop: "updateSessionsLoop fp token users (False, {}, st) = Inr (h, ids, st1)"
    and int: "isInternalSignalingSessions users = Inr internal"
    and fin: "st' = (if internal
            then deleteSessionsNotIn (updateParticipantsFromInternalSignaling st1 token users) ids
            else st1)"
    by (rule updateSessions_Inr)
  from loop_registry [OF ok loop] have ids: "ids = batchIds users"
    and dom1: "dom (sessions st1) = dom (sessions st) \<union> batchIds users"
    by simp_all
  from batch have "\<forall>u\<in>set users. \<not> isStandaloneSignalingJoinSession u"
    by (simp add: internalBatch_entry)
  from loop_no_join [OF this loop]
  have same: "roster st1 = roster st" "commits st1 = commits st" by simp_all
  from fin int ids internalBatch_head [OF batch]
  have st': "st' = deleteSessionsNotIn (updateParticipantsFromInternalSignaling st1 token users)
                     (batchIds users)"
    by simp
  have sess: "sessions st' = (\<lambda>k. if k \<in> batchIds users then sessions st1 k else None)"
    by (simp add: st' deleteSessionsNotIn_def updateParticipantsFromInternalSignaling_def
          cong: if_cong)
  have resolved: "resolvedAttendee st' u = resolvedAttendee st1 u" if u: "u \<in> set users" for u
  proof (cases "sessionId u")
    case None
    then show ?thesis by (simp add: resolvedAttendee_def getSession_def)
  next
    case (Some k)
    with internalBatch_entry [OF batch u] u have "k \<in> batchIds users"
      by (auto simp: batchIds_mem)
    with Some sess show ?thesis by (simp add: resolvedAttendee_def getSession_def)
  qed
  then have "entriesOf st' users a = entriesOf st1 users a" for a
    by (auto simp: entriesOf_def intro: filter_cong)
  then have grouped: "groupedUpdate st' users = groupedUpdate st1 users"
    by (simp add: groupedUpdate_def fun_eq_iff)
  have "participantsToUpdate st1 users Map.empty = groupedUpdate st1 users"
    by (rule ext) (rule ptu_empty)
  with same grouped
  have "issued st st' = List.map_filter (commandFor token (groupedUpdate st' users)) (roster st token)"
    by (simp add: st' issued_def deleteSessionsNotIn_def
          updateParticipantsFromInternalSignaling_def participantsList_def
          commitParticipants_commits)
  moreover from sess have "\<forall>k. k \<notin> batchIds users \<longrightarrow> sessions st' k = None" by simp
  moreover from sess dom1 have "\<forall>k\<in>batchIds users. sessions st' k \<noteq> None" by auto
  ultimately show ?thesis by simp
qed

section \<open>Internal signaling: the batch is complete\<close>

text \<open>The definitions unfolded to run the store on a concrete world.\<close>

lemmas concrete_defs = emptyWorld_def emptyPayload_def TOKEN_def user1_def user2_def mkSession_def
  internalEntry_def joinEntry_def updateEntry_def ACTOR_TYPE_USERS_def ACTOR_TYPE_GUESTS_def
  ACTOR_TYPE_FEDERATED_USERS_def CALL_FLAG_DISCONNECTED_def noUpdate_def

lemmas run_defs = updateSessions_def updateSessionsLeft_def findOrCreateSession_def
  payloadSignalingSessionId_def payloadIdentifier_def isInternalSignalingSessions_def
  isInternalSignalingSession_def isStandaloneSignalingJoinSession_def
  isStandaloneSignalingUpdateSession_def getSession_def addSession_def deleteSession_def
  getParticipant_def participantsList_def updateParticipant_def mergeParticipant_def orElse_def
  updateParticipantJoinedFromStandaloneSignaling_def updateParticipantsFromInternalSignaling_def
  deleteSessionsNotIn_def findParticipant_def truthy_string_def truthy_number_def uniq_def
  issued_def committed_def resolvedAttendee_def resolvedAttendees_def entriesOf_def
  batchIds_def worldOr_def disconnectCommand_def Let_def

text \<open>
  C1. For an internal batch passed to \<^verbatim>\<open>updateSessions\<close>, in a registry keyed by signaling
  session id and a roster keyed by attendee id: every session whose id is not among the
  ids of the batch is deleted from the registry; and for every participant of the roster
  who has sessions and whose attendee id no entry of the batch resolves to, exactly one
  command is committed, which sets \<^verbatim>\<open>inCall\<close> to the disconnected flag and \<^verbatim>\<open>sessionIds\<close>
  to the empty list.
\<close>

theorem internal_batch_prunes_and_disconnects:
  assumes "registry_ok st" and "distinct (map p_attendeeId (roster st token))"
    and "internalBatch users" and "updateSessions fp st token users = Inr (h, st')"
  shows "(\<forall>k. k \<notin> batchIds users \<longrightarrow> sessions st' k = None)
       \<and> (\<forall>p\<in>set (roster st token).
            p_sessionIds p \<noteq> [] \<and> p_attendeeId p \<notin> resolvedAttendees st' users
            \<longrightarrow> filter (\<lambda>c. c_attendeeId c = p_attendeeId p) (issued st st')
                  = [disconnectCommand token (p_attendeeId p)])"
proof -
  from updateSessions_internal [OF assms(1,3,4)] have
    cmds: "issued st st'
             = List.map_filter (commandFor token (groupedUpdate st' users)) (roster st token)"
    and gone: "\<forall>k. k \<notin> batchIds users \<longrightarrow> sessions st' k = None"
    by simp_all
  have "filter (\<lambda>c. c_attendeeId c = p_attendeeId p) (issued st st')
          = [disconnectCommand token (p_attendeeId p)]"
    if p: "p \<in> set (roster st token)" and ids: "p_sessionIds p \<noteq> []"
      and absent: "p_attendeeId p \<notin> resolvedAttendees st' users" for p
  proof -
    from absent have "groupedUpdate st' users (p_attendeeId p) = None"
      by (simp add: groupedUpdate_None)
    with ids have "commandFor token (groupedUpdate st' users) p
                     = Some (disconnectCommand token (p_attendeeId p))"
      by (simp add: commandFor_def)
    with commands_present [OF assms(2) p, of token "groupedUpdate st' users"] cmds
    show ?thesis by simp
  qed
  with gone show ?thesis by blast
qed

lemma registry_ok_twoSessions: "registry_ok twoSessions"
  by (simp add: registry_ok_def twoSessions_def concrete_defs)

lemma run_snapshot2:
  "updateSessions findParticipant twoSessions TOKEN snapshot2
     = Inr (False, worldOr twoSessions (updateSessions findParticipant twoSessions TOKEN snapshot2))"
  by (simp add: twoSessions_def snapshot2_def run_defs concrete_defs)

theorem internal_batch_prunes_and_disconnects_witness:
  "registry_ok twoSessions
   \<and> distinct (map p_attendeeId (roster twoSessions TOKEN))
   \<and> internalBatch snapshot2
   \<and> sessions twoSessions ''session-id-1'' \<noteq> None
   \<and> sessions (worldOr twoSessions (updateSessions findParticipant twoSessions TOKEN snapshot2))
        ''session-id-1'' = None
   \<and> filter (\<lambda>c. c_attendeeId c = 1)
        (issued twoSessions
           (worldOr twoSessions (updateSessions findParticipant twoSessions TOKEN snapshot2)))
       = [disconnectCommand TOKEN 1]"
proof -
  have d: "distinct (map p_attendeeId (roster twoSessions TOKEN))"
    by (simp add: twoSessions_def concrete_defs)
  have b: "internalBatch snapshot2"
    by (simp add: internalBatch_def snapshot2_def isInternalSignalingSession_def
          isStandaloneSignalingJoinSession_def concrete_defs)
  have k: "''session-id-1'' \<notin> batchIds snapshot2"
    by (simp add: snapshot2_def batchIds_def payloadSignalingSessionId_def
          isStandaloneSignalingJoinSession_def concrete_defs)
  have p: "user1 [Some ''session-id-1''] \<in> set (roster twoSessions TOKEN)"
    by (simp add: twoSessions_def concrete_defs)
  have r: "p_attendeeId (user1 [Some ''session-id-1''])
             \<notin> resolvedAttendees
                 (worldOr twoSessions (updateSessions findParticipant twoSessions TOKEN snapshot2))
                 snapshot2"
    by (simp add: twoSessions_def snapshot2_def run_defs concrete_defs)
  have i: "p_sessionIds (user1 [Some ''session-id-1'']) \<noteq> []"
       "p_attendeeId (user1 [Some ''session-id-1'']) = 1"
    by (simp_all add: user1_def)
  have s: "sessions twoSessions ''session-id-1'' \<noteq> None"
    by (simp add: twoSessions_def)
  from internal_batch_prunes_and_disconnects [OF registry_ok_twoSessions d b run_snapshot2]
    k p r i s registry_ok_twoSessions d b
  show ?thesis by auto
qed

section \<open>Internal signaling: one update for each attendee\<close>

text \<open>
  C7, as the code has it. For an internal batch, the entries are grouped by the attendee
  their session resolves to (entries that resolve to none are in no group). For an
  attendee with a group, exactly one command is committed if the roster of the
  conversation lists the attendee, and none if it does not; the command carries
  \<^verbatim>\<open>inCall\<close>, \<^verbatim>\<open>lastPing\<close> and \<^verbatim>\<open>permissions\<close> of the first entry of the group and the
  \<^verbatim>\<open>sessionId\<close>s of the group in batch order.
\<close>

theorem internal_batch_one_update_per_listed_attendee:
  assumes "registry_ok st" and "distinct (map p_attendeeId (roster st token))"
    and "internalBatch users" and "updateSessions fp st token users = Inr (h, st')"
    and "entriesOf st' users a = first # others"
  shows "filter (\<lambda>c. c_attendeeId c = a) (issued st st')
           = (if a \<in> p_attendeeId ` set (roster st token)
              then [\<lparr> c_token = token, c_attendeeId = a,
                      c_updatedData =
                        noUpdate\<lparr> u_attendeeId := Some a,
                                   u_inCall := inCall first,
                                   u_lastPing := lastPing first,
                                   u_permissions := participantPermissions first,
                                   u_sessionIds := Some (map sessionId (first # others)) \<rparr> \<rparr>]
              else [])"
proof -
  from updateSessions_internal [OF assms(1,3,4)] have
    cmds: "issued st st'
             = List.map_filter (commandFor token (groupedUpdate st' users)) (roster st token)"
    by simp
  show ?thesis
  proof (cases "a \<in> p_attendeeId ` set (roster st token)")
    case False
    with commands_absent [OF False, of token "groupedUpdate st' users"] cmds
    show ?thesis by simp
  next
    case True
    then obtain p where p: "p \<in> set (roster st token)" "p_attendeeId p = a" by auto
    from assms(5) p(2)
    have "commandFor token (groupedUpdate st' users) p
            = Some \<lparr> c_token = token, c_attendeeId = a,
                     c_updatedData =
                        noUpdate\<lparr> u_attendeeId := Some a,
                                   u_inCall := inCall first,
                                   u_lastPing := lastPing first,
                                   u_permissions := participantPermissions first,
                                   u_sessionIds := Some (map sessionId (first # others)) \<rparr> \<rparr>"
      by (simp add: commandFor_def groupedUpdate_def)
    with commands_present [OF assms(2) p(1), of token "groupedUpdate st' users"] cmds p(2) True
    show ?thesis by simp
  qed
qed

lemma registry_ok_noSessions: "registry_ok noSessions"
  by (simp add: registry_ok_def noSessions_def concrete_defs)

lemma run_snapshot123:
  "updateSessions findParticipant noSessions TOKEN snapshot123
     = Inr (False, worldOr noSessions (updateSessions findParticipant noSessions TOKEN snapshot123))"
  by (simp add: noSessions_def snapshot123_def run_defs concrete_defs)

theorem internal_batch_one_update_per_listed_attendee_witness:
  "registry_ok noSessions
   \<and> distinct (map p_attendeeId (roster noSessions TOKEN))
   \<and> internalBatch snapshot123
   \<and> entriesOf (worldOr noSessions (updateSessions findParticipant noSessions TOKEN snapshot123))
        snapshot123 2
       = [internalEntry ''user2'' ''session-id-2'', internalEntry ''user2'' ''session-id-3'']
   \<and> filter (\<lambda>c. c_attendeeId c = 2)
        (issued noSessions
           (worldOr noSessions (updateSessions findParticipant noSessions TOKEN snapshot123)))
       = [\<lparr> c_token = TOKEN, c_attendeeId = 2,
            c_updatedData =
              noUpdate\<lparr> u_attendeeId := Some 2, u_inCall := Some 7,
                         u_lastPing := Some 1717192800, u_permissions := Some 254,
                         u_sessionIds := Some [Some ''session-id-2'', Some ''session-id-3''] \<rparr> \<rparr>]
   \<and> length (issued noSessions
        (worldOr noSessions (updateSessions findParticipant noSessions TOKEN snapshot123))) = 2"
proof -
  have d: "distinct (map p_attendeeId (roster noSessions TOKEN))"
    by (simp add: noSessions_def concrete_defs)
  have b: "internalBatch snapshot123"
    by (simp add: internalBatch_def snapshot123_def isInternalSignalingSession_def
          isStandaloneSignalingJoinSession_def concrete_defs)
  have e: "entriesOf (worldOr noSessions (updateSessions findParticipant noSessions TOKEN snapshot123))
        snapshot123 2
       = [internalEntry ''user2'' ''session-id-2'', internalEntry ''user2'' ''session-id-3'']"
    by (simp add: noSessions_def snapshot123_def run_defs concrete_defs)
  have m: "2 \<in> p_attendeeId ` set (roster noSessions TOKEN)"
    by (simp add: noSessions_def concrete_defs)
  have n: "length (issued noSessions
        (worldOr noSessions (updateSessions findParticipant noSessions TOKEN snapshot123))) = 2"
    by (simp add: noSessions_def snapshot123_def run_defs concrete_defs)
  from internal_batch_one_update_per_listed_attendee
         [OF registry_ok_noSessions d b run_snapshot123 e] m
  have "filter (\<lambda>c. c_attendeeId c = 2)
        (issued noSessions
           (worldOr noSessions (updateSessions findParticipant noSessions TOKEN snapshot123)))
       = [\<lparr> c_token = TOKEN, c_attendeeId = 2,
            c_updatedData =
              noUpdate\<lparr> u_attendeeId := Some 2, u_inCall := Some 7,
                         u_lastPing := Some 1717192800, u_permissions := Some 254,
                         u_sessionIds := Some [Some ''session-id-2'', Some ''session-id-3''] \<rparr> \<rparr>]"
    by (simp add: internalEntry_def emptyPayload_def)
  with registry_ok_noSessions d b e n show ?thesis by simp
qed

text \<open>
  C7 as stated fails: the commits are made per participant of the roster, so an attendee
  the batch resolves to and the roster no longer lists gets no command.
\<close>

theorem deleted_attendee_gets_no_update:
  "internalBatch [internalEntry ''user1'' ''session-id-1'']
   \<and> resolvedAttendees deleted1 [internalEntry ''user1'' ''session-id-1''] = {1}
   \<and> committed deleted1
        (updateSessions findParticipant deleted1 TOKEN [internalEntry ''user1'' ''session-id-1''])
       = Inr []"
  by (simp add: internalBatch_def deleted1_def run_defs concrete_defs)

section \<open>Unknown sessions\<close>

lemma sessionOf_eq:
  "payloadSignalingSessionId u = Some k \<Longrightarrow> k \<noteq> [] \<Longrightarrow> sessionOf st u = sessions st k"
  by (simp add: sessionOf_def getSession_Some)

lemma isInternalSignalingSessions_Cons:
  "users \<noteq> [] \<Longrightarrow> \<exists>b. isInternalSignalingSessions users = Inr b"
  by (cases users) (simp_all add: isInternalSignalingSessions_def)

lemma updateParticipantsFromInternalSignaling_sessions [simp]:
  "sessions (updateParticipantsFromInternalSignaling st token users) = sessions st"
  by (simp add: updateParticipantsFromInternalSignaling_def)

lemma updateSessions_returns:
  assumes "users \<noteq> []" and "\<forall>u\<in>set users. truthy_string (payloadSignalingSessionId u)"
  shows "\<exists>h st'. updateSessions fp st token users = Inr (h, st')"
proof -
  from loop_returns [OF assms(2), of fp token False "{}" st]
  obtain h ids st1 where "updateSessionsLoop fp token users (False, {}, st) = Inr (h, ids, st1)"
    by (metis prod_cases3)
  moreover from isInternalSignalingSessions_Cons [OF assms(1)]
  obtain b where "isInternalSignalingSessions users = Inr b" ..
  ultimately show ?thesis by (simp add: updateSessions_def)
qed

lemma updateSessions_batch_sessions:
  assumes ok: "registry_ok st"
    and run: "updateSessions fp st token users = Inr (h, st')"
    and k: "k \<in> batchIds users"
  shows "\<exists>s. sessions st' k = Some s"
proof -
  from run obtain ids st1 internal where
    loop: "updateSessionsLoop fp token users (False, {}, st) = Inr (h, ids, st1)"
    and fin: "st' = (if internal
            then deleteSessionsNotIn (updateParticipantsFromInternalSignaling st1 token users) ids
            else st1)"
    by (rule updateSessions_Inr)
  from loop_registry [OF ok loop] have ids: "ids = batchIds users"
    and dom1: "dom (sessions st1) = dom (sessions st) \<union> batchIds users"
    by simp_all
  from dom1 k obtain s where "sessions st1 k = Some s" by auto
  with fin ids k show ?thesis
    by (simp add: deleteSessionsNotIn_def)
qed

lemma updateSessions_flag:
  assumes ok: "registry_ok st"
    and ids: "\<forall>u\<in>set users. truthy_string (payloadSignalingSessionId u)"
    and run: "updateSessions fp st token users = Inr (h, st')"
  shows "h = (\<exists>u\<in>set users. unknownSession st' u)"
proof -
  from run obtain seen st1 internal where
    loop: "updateSessionsLoop fp token users (False, {}, st) = Inr (h, seen, st1)"
    and fin: "st' = (if internal
            then deleteSessionsNotIn (updateParticipantsFromInternalSignaling st1 token users) seen
            else st1)"
    by (rule updateSessions_Inr)
  from loop_registry [OF ok loop] have seen: "seen = batchIds users" by simp
  have "sessionOf st' u = sessionOf st1 u" if u: "u \<in> set users" for u
  proof -
    from ids u obtain k where k: "payloadSignalingSessionId u = Some k" "k \<noteq> []"
      by (auto simp: truthy_string_def split: option.splits)
    with u have "k \<in> batchIds users" by (auto simp: batchIds_mem)
    with fin seen have "sessions st' k = sessions st1 k"
      by (simp add: deleteSessionsNotIn_def)
    with k show ?thesis by (simp add: sessionOf_eq)
  qed
  then have "\<forall>u\<in>set users. unknownSession st' u = unknownSession st1 u"
    by (simp add: unknownSession_def)
  with loop_flag [OF ok loop] show ?thesis by simp
qed

text \<open>
  C8. On a batch that is not empty and whose payloads all carry an id, \<^verbatim>\<open>updateSessions\<close>
  returns, and it returns true if and only if the session of some entry has no attendee
  (\<^verbatim>\<open>!session.attendeeId\<close>: the id is \<^verbatim>\<open>undefined\<close>, or 0). The session of every entry is
  in the registry after the call. An entry whose session has no attendee is skipped: its
  turn of the loop changes neither the roster nor the commits and only sets the flag and
  records the id, and the grouping of an internal batch passes over it. A session created
  for a payload that matches no participant has \<^verbatim>\<open>attendeeId\<close> \<^verbatim>\<open>undefined\<close>.
\<close>

theorem hasUnknownSessions_iff_orphan_entry:
  assumes "registry_ok st" and "users \<noteq> []"
    and "\<forall>u\<in>set users. truthy_string (payloadSignalingSessionId u)"
  shows "\<exists>h st'. updateSessions fp st token users = Inr (h, st')
           \<and> h = (\<exists>u\<in>set users. unknownSession st' u)
           \<and> (\<forall>u\<in>set users. sessionOf st' u \<noteq> None)
           \<and> (\<forall>w u s w1 rest h0 ids.
                 findOrCreateSession fp w token u = Inr (s, w1)
                 \<and> \<not> truthy_number (s_attendeeId s)
                 \<longrightarrow> roster w1 = roster w \<and> commits w1 = commits w
                     \<and> updateSessionsLoop fp token (u # rest) (h0, ids, w)
                         = updateSessionsLoop fp token rest
                             (True, insert (s_signalingSessionId s) ids, w1))
           \<and> (\<forall>w u rest acc.
                 resolvedAttendee w u = None
                 \<longrightarrow> participantsToUpdate w (u # rest) acc = participantsToUpdate w rest acc)
           \<and> (\<forall>w u s w1.
                 sessionOf w u = None \<and> fp (roster w) token (payloadIdentifier u) = None
                 \<and> findOrCreateSession fp w token u = Inr (s, w1)
                 \<longrightarrow> s_attendeeId s = None \<and> sessionOf w1 u = Some s)"
proof -
  from updateSessions_returns [OF assms(2,3)]
  obtain h st' where run: "updateSessions fp st token users = Inr (h, st')" by blast
  have flag: "h = (\<exists>u\<in>set users. unknownSession st' u)"
    by (rule updateSessions_flag [OF assms(1,3) run])
  have kept: "\<forall>u\<in>set users. sessionOf st' u \<noteq> None"
  proof
    fix u assume u: "u \<in> set users"
    with assms(3) obtain k where k: "payloadSignalingSessionId u = Some k" "k \<noteq> []"
      by (auto simp: truthy_string_def split: option.splits)
    with u have "k \<in> batchIds users" by (auto simp: batchIds_mem)
    from updateSessions_batch_sessions [OF assms(1) run this] k
    show "sessionOf st' u \<noteq> None" by (auto simp: sessionOf_eq)
  qed
  have skip: "roster w1 = roster w \<and> commits w1 = commits w
              \<and> updateSessionsLoop fp token (u # rest) (h0, ids, w)
                  = updateSessionsLoop fp token rest
                      (True, insert (s_signalingSessionId s) ids, w1)"
    if "findOrCreateSession fp w token u = Inr (s, w1)" "\<not> truthy_number (s_attendeeId s)"
    for w u s w1 rest h0 ids
  proof -
    from findOrCreateSession_Inr [OF that(1)]
    have "roster w1 = roster w \<and> commits w1 = commits w" by auto
    moreover from that
    have "updateSessionsLoop fp token (u # rest) (h0, ids, w)
            = updateSessionsLoop fp token rest (True, insert (s_signalingSessionId s) ids, w1)"
      by (cases "s_attendeeId s") (simp_all add: truthy_number_def Let_def)
    ultimately show ?thesis by simp
  qed
  have orphan: "s_attendeeId s = None \<and> sessionOf w1 u = Some s"
    if "sessionOf w u = None" "fp (roster w) token (payloadIdentifier u) = None"
      "findOrCreateSession fp w token u = Inr (s, w1)"
    for w u s w1
  proof -
    from findOrCreateSession_Inr [OF that(3)] obtain k where
      k: "payloadSignalingSessionId u = Some k" "k \<noteq> []" "sessions w1 = (sessions w)(k \<mapsto> s)"
      by auto
    with that(1) have "sessions w k = None" by (simp add: sessionOf_eq)
    from findOrCreateSession_new [OF k(1,2) this, of fp token] that(2,3)
    have "s_attendeeId s = None" by auto
    with k show ?thesis by (simp add: sessionOf_eq)
  qed
  from run flag kept skip orphan ptu_None show ?thesis by blast
qed


lemma run_unknown:
  "updateSessions findParticipant noSessions TOKEN
     [internalEntry ''user-unknown'' ''session-id-unknown'']
   = Inr (True, worldOr noSessions (updateSessions findParticipant noSessions TOKEN
            [internalEntry ''user-unknown'' ''session-id-unknown'']))"
  by (simp add: noSessions_def run_defs concrete_defs)

theorem hasUnknownSessions_iff_orphan_entry_witness:
  "registry_ok noSessions
   \<and> truthy_string (payloadSignalingSessionId (internalEntry ''user-unknown'' ''session-id-unknown''))
   \<and> updateSessions findParticipant noSessions TOKEN
        [internalEntry ''user-unknown'' ''session-id-unknown'']
       = Inr (True, worldOr noSessions (updateSessions findParticipant noSessions TOKEN
            [internalEntry ''user-unknown'' ''session-id-unknown'']))
   \<and> unknownSession
        (worldOr noSessions (updateSessions findParticipant noSessions TOKEN
            [internalEntry ''user-unknown'' ''session-id-unknown'']))
        (internalEntry ''user-unknown'' ''session-id-unknown'')
   \<and> sessionOf
        (worldOr noSessions (updateSessions findParticipant noSessions TOKEN
            [internalEntry ''user-unknown'' ''session-id-unknown'']))
        (internalEntry ''user-unknown'' ''session-id-unknown'')
       = Some (mkSession None ''session-id-unknown'' (Some ''session-id-unknown''))"
proof -
  have ok: "registry_ok noSessions"
    by (simp add: registry_ok_def noSessions_def concrete_defs)
  have ne: "[internalEntry ''user-unknown'' ''session-id-unknown''] \<noteq> []" by simp
  have t: "truthy_string
             (payloadSignalingSessionId (internalEntry ''user-unknown'' ''session-id-unknown''))"
    by (simp add: run_defs concrete_defs)
  then have ids: "\<forall>u\<in>set [internalEntry ''user-unknown'' ''session-id-unknown''].
                   truthy_string (payloadSignalingSessionId u)"
    by simp
  from hasUnknownSessions_iff_orphan_entry [OF ok ne ids, of findParticipant TOKEN]
  obtain h st' where
    run: "updateSessions findParticipant noSessions TOKEN
            [internalEntry ''user-unknown'' ''session-id-unknown''] = Inr (h, st')"
    and flag: "h = (\<exists>u\<in>set [internalEntry ''user-unknown'' ''session-id-unknown''].
                      unknownSession st' u)"
    by blast
  from run [symmetric] run_unknown
  have "Inr (h, st') = (Inr (True, worldOr noSessions (updateSessions findParticipant noSessions
            TOKEN [internalEntry ''user-unknown'' ''session-id-unknown''])) :: error + bool \<times> World)"
    by (rule trans)
  then have "h = True"
    and "st' = worldOr noSessions (updateSessions findParticipant noSessions TOKEN
            [internalEntry ''user-unknown'' ''session-id-unknown''])"
    by simp_all
  with flag have u: "unknownSession
        (worldOr noSessions (updateSessions findParticipant noSessions TOKEN
            [internalEntry ''user-unknown'' ''session-id-unknown'']))
        (internalEntry ''user-unknown'' ''session-id-unknown'')"
    by simp
  have s: "sessionOf
        (worldOr noSessions (updateSessions findParticipant noSessions TOKEN
            [internalEntry ''user-unknown'' ''session-id-unknown'']))
        (internalEntry ''user-unknown'' ''session-id-unknown'')
       = Some (mkSession None ''session-id-unknown'' (Some ''session-id-unknown''))"
    by (simp add: noSessions_def sessionOf_def run_defs concrete_defs)
  from ok t run_unknown u s show ?thesis by simp
qed

section \<open>Sessions that left\<close>

lemma deleteSession_sessions:
  "sessions (deleteSession st k) = (sessions st)(k := None)"
  by (cases "sessions st k") (auto simp: deleteSession_def)

lemma deleteSession_other [simp]:
  "roster (deleteSession st k) = roster st" "commits (deleteSession st k) = commits st"
  by (simp_all add: deleteSession_def split: option.splits)

lemma deleteSessions_sessions:
  "sessions (deleteSessions st ks) k = (if k \<in> set ks then None else sessions st k)"
  by (induction ks arbitrary: st) (simp_all add: deleteSession_sessions)

lemma deleteSessions_other [simp]:
  "roster (deleteSessions st ks) = roster st" "commits (deleteSessions st ks) = commits st"
  by (induction ks arbitrary: st) simp_all

lemma left_sessions [simp]:
  "sessions (updateParticipantsLeftFromStandaloneSignaling st token ks) = sessions st"
proof (induction ks arbitrary: st)
  case Nil
  show ?case by simp
next
  case (Cons k ks)
  show ?case
    by (simp add: Cons.IH Let_def split: option.splits)
qed

text \<open>Every session that left is deleted, found or not; no other session is.\<close>

lemma updateSessionsLeft_sessions:
  "sessions (updateSessionsLeft st token ks) k = (if k \<in> set ks then None else sessions st k)"
  by (simp add: updateSessionsLeft_def deleteSessions_sessions)

lemma left_single:
  assumes "k \<noteq> []" "sessions st k = Some s" "s_attendeeId s = Some a" "a \<noteq> 0"
    "getParticipant st token a = Some p"
  shows "updateParticipantsLeftFromStandaloneSignaling st token [k]
           = updateParticipant st token a
               (noUpdate\<lparr> u_sessionIds := Some (filter (\<lambda>i. i \<noteq> Some k) (p_sessionIds p)),
                          u_inCall := Some (if filter (\<lambda>i. i \<noteq> Some k) (p_sessionIds p) \<noteq> []
                                            then p_inCall p else CALL_FLAG_DISCONNECTED) \<rparr>)"
  using assms by (simp add: getSession_Some Let_def)

lemma updateParticipant_roster:
  "roster (updateParticipant st token a d) token
     = map (\<lambda>p. if p_attendeeId p = a then mergeParticipant p d else p) (roster st token)"
  by (simp add: updateParticipant_def)

lemma find_attendee:
  "find (\<lambda>q. p_attendeeId q = a) ps = Some p \<Longrightarrow> p \<in> set ps \<and> p_attendeeId p = a"
  by (auto simp: find_Some_iff)

lemma distinct_attendee:
  "distinct (map p_attendeeId ps) \<Longrightarrow> p \<in> set ps \<Longrightarrow> q \<in> set ps
     \<Longrightarrow> p_attendeeId q = p_attendeeId p \<Longrightarrow> q = p"
  by (meson distinct_map inj_onD)

lemma mergeParticipant_attendeeId [simp]:
  "p_attendeeId (mergeParticipant p d) = p_attendeeId p"
  by (simp add: mergeParticipant_def)

lemma updateParticipant_attendeeIds:
  "map p_attendeeId (roster (updateParticipant st token a d) token)
     = map p_attendeeId (roster st token)"
  by (simp add: updateParticipant_roster comp_def cong: map_cong)

lemma leftAttendee_updateParticipant [simp]:
  "leftAttendee (updateParticipant st token a d) = leftAttendee st"
  by (rule ext) (simp add: leftAttendee_def getSession_def)

lemma leftIdsOf_updateParticipant [simp]:
  "leftIdsOf (updateParticipant st token a d) = leftIdsOf st"
  by (rule ext)+ (simp add: leftIdsOf_def)

lemma left_Cons_skip:
  "leftAttendee st k = None
     \<Longrightarrow> updateParticipantsLeftFromStandaloneSignaling st token (k # ks)
         = updateParticipantsLeftFromStandaloneSignaling st token ks"
  by (auto simp: leftAttendee_def split: option.splits if_splits)

lemma left_Cons_absent:
  "leftAttendee st k = Some a \<Longrightarrow> getParticipant st token a = None
     \<Longrightarrow> updateParticipantsLeftFromStandaloneSignaling st token (k # ks)
         = updateParticipantsLeftFromStandaloneSignaling st token ks"
  by (auto simp: leftAttendee_def split: option.splits if_splits)

lemma left_Cons_commit:
  "leftAttendee st k = Some a \<Longrightarrow> getParticipant st token a = Some p
     \<Longrightarrow> updateParticipantsLeftFromStandaloneSignaling st token (k # ks)
         = updateParticipantsLeftFromStandaloneSignaling
             (updateParticipant st token a
                (noUpdate\<lparr> u_sessionIds := Some (filter (\<lambda>i. i \<noteq> Some k) (p_sessionIds p)),
                           u_inCall := Some (if filter (\<lambda>i. i \<noteq> Some k) (p_sessionIds p) \<noteq> []
                                             then p_inCall p else CALL_FLAG_DISCONNECTED) \<rparr>))
             token ks"
  by (auto simp: leftAttendee_def Let_def split: option.splits if_splits)

lemma leftIdsOf_Cons:
  "leftIdsOf st (k # ks) a
     = (if leftAttendee st k = Some a then insert k (leftIdsOf st ks a) else leftIdsOf st ks a)"
  by (simp add: leftIdsOf_def)

lemma getParticipant_None:
  "getParticipant st token a = None \<Longrightarrow> q \<in> set (roster st token) \<Longrightarrow> p_attendeeId q \<noteq> a"
  by (auto simp: getParticipant_def find_None_iff)

lemma left_roster:
  assumes "distinct (map p_attendeeId (roster st token))"
  shows "map p_sessionIds (roster (updateParticipantsLeftFromStandaloneSignaling st token ks) token)
           = map (\<lambda>p. filter (\<lambda>i. i \<notin> Some ` leftIdsOf st ks (p_attendeeId p)) (p_sessionIds p))
               (roster st token)"
  using assms
proof (induction ks arbitrary: st)
  case Nil
  show ?case by (simp add: leftIdsOf_def)
next
  case (Cons k ks)
  show ?case
  proof (cases "leftAttendee st k")
    case None
    with Cons.IH [OF Cons.prems] show ?thesis
      by (simp add: left_Cons_skip leftIdsOf_Cons
            del: updateParticipantsLeftFromStandaloneSignaling.simps)
  next
    case (Some a)
    show ?thesis
    proof (cases "getParticipant st token a")
      case None
      have "leftIdsOf st (k # ks) (p_attendeeId q) = leftIdsOf st ks (p_attendeeId q)"
        if "q \<in> set (roster st token)" for q
        using getParticipant_None [OF None that] Some by (auto simp: leftIdsOf_Cons)
      with Cons.IH [OF Cons.prems] Some None show ?thesis
        by (simp add: left_Cons_absent del: updateParticipantsLeftFromStandaloneSignaling.simps
              cong: map_cong)
    next
      case p: (Some p)
      define d where
        "d = noUpdate\<lparr> u_sessionIds := Some (filter (\<lambda>i. i \<noteq> Some k) (p_sessionIds p)),
                        u_inCall := Some (if filter (\<lambda>i. i \<noteq> Some k) (p_sessionIds p) \<noteq> []
                                          then p_inCall p else CALL_FLAG_DISCONNECTED) \<rparr>"
      define st1 where "st1 = updateParticipant st token a d"
      have ids: "p_sessionIds (mergeParticipant q d) = filter (\<lambda>i. i \<noteq> Some k) (p_sessionIds p)"
        for q
        by (simp add: d_def mergeParticipant_def noUpdate_def)
      from p have pin: "p \<in> set (roster st token)" "p_attendeeId p = a"
        by (auto simp: getParticipant_def dest: find_attendee)
      from Cons.prems have d1: "distinct (map p_attendeeId (roster st1 token))"
        by (simp only: st1_def updateParticipant_attendeeIds)
      have step: "updateParticipantsLeftFromStandaloneSignaling st token (k # ks)
                    = updateParticipantsLeftFromStandaloneSignaling st1 token ks"
        unfolding st1_def d_def by (rule left_Cons_commit [OF Some p])
      have same: "leftIdsOf st1 ks = leftIdsOf st ks"
        by (simp add: st1_def)
      have ros: "roster st1 token
                   = map (\<lambda>q. if p_attendeeId q = a then mergeParticipant q d else q)
                       (roster st token)"
        by (simp add: st1_def updateParticipant_roster)
      have elem: "filter (\<lambda>i. i \<notin> Some ` leftIdsOf st ks (p_attendeeId q))
                (p_sessionIds (if p_attendeeId q = a then mergeParticipant q d else q))
              = filter (\<lambda>i. i \<notin> Some ` leftIdsOf st (k # ks) (p_attendeeId q)) (p_sessionIds q)"
        if q: "q \<in> set (roster st token)" for q
      proof (cases "p_attendeeId q = a")
        case True
        with distinct_attendee [OF Cons.prems pin(1) q] pin(2) have "q = p" by simp
        with True Some pin(2) show ?thesis
          by (auto simp: ids leftIdsOf_Cons intro: filter_cong)
      next
        case False
        with Some show ?thesis by (simp add: leftIdsOf_Cons)
      qed
      have "map (\<lambda>q. filter (\<lambda>i. i \<notin> Some ` leftIdsOf st ks (p_attendeeId q)) (p_sessionIds q))
              (roster st1 token)
            = map (\<lambda>q. filter (\<lambda>i. i \<notin> Some ` leftIdsOf st ks
                             (p_attendeeId (if p_attendeeId q = a then mergeParticipant q d else q)))
                          (p_sessionIds (if p_attendeeId q = a then mergeParticipant q d else q)))
                (roster st token)"
        by (simp only: ros list.map_comp comp_def)
      also have "\<dots> = map (\<lambda>q. filter (\<lambda>i. i \<notin> Some ` leftIdsOf st (k # ks) (p_attendeeId q))
                                 (p_sessionIds q))
                       (roster st token)"
      proof (rule map_cong [OF refl])
        fix q assume q: "q \<in> set (roster st token)"
        have "p_attendeeId (if p_attendeeId q = a then mergeParticipant q d else q) = p_attendeeId q"
          by simp
        with elem [OF q]
        show "filter (\<lambda>i. i \<notin> Some ` leftIdsOf st ks
                 (p_attendeeId (if p_attendeeId q = a then mergeParticipant q d else q)))
               (p_sessionIds (if p_attendeeId q = a then mergeParticipant q d else q))
              = filter (\<lambda>i. i \<notin> Some ` leftIdsOf st (k # ks) (p_attendeeId q)) (p_sessionIds q)"
          by (simp only:)
      qed
      finally have conv: "map (\<lambda>q. filter (\<lambda>i. i \<notin> Some ` leftIdsOf st ks (p_attendeeId q))
                                  (p_sessionIds q)) (roster st1 token)
            = map (\<lambda>q. filter (\<lambda>i. i \<notin> Some ` leftIdsOf st (k # ks) (p_attendeeId q))
                          (p_sessionIds q)) (roster st token)" .
      from Cons.IH [OF d1] have "map p_sessionIds
              (roster (updateParticipantsLeftFromStandaloneSignaling st1 token ks) token)
            = map (\<lambda>q. filter (\<lambda>i. i \<notin> Some ` leftIdsOf st ks (p_attendeeId q))
                          (p_sessionIds q)) (roster st1 token)"
        by (simp only: same)
      with conv step show ?thesis by (simp only:)
    qed
  qed
qed

text \<open>
  C10. In leave processing the ids removed from the \<^verbatim>\<open>sessionIds\<close> of a participant are those
  equal to the signaling session ids that left, every occurrence of them, and not the
  room-session ids the sessions record. For every list of ids passed to
  \<^verbatim>\<open>updateSessionsLeft\<close>, in a registry keyed by signaling session id and a roster keyed by
  attendee id: the \<^verbatim>\<open>sessionIds\<close> of each participant after the call are those before it
  without the ids of the list whose session resolves to the participant; every session
  the list names is deleted from the registry; and where the lists hold room-session
  ids, sessions whose signaling session id differs from their room-session id leave the
  \<^verbatim>\<open>sessionIds\<close> of every participant unchanged.
\<close>

theorem leave_filters_by_signaling_ids:
  assumes "registry_ok st" and "distinct (map p_attendeeId (roster st token))"
  shows "map p_sessionIds (roster (updateSessionsLeft st token ids) token)
           = map (\<lambda>p. filter (\<lambda>i. i \<notin> Some ` leftIdsOf st ids (p_attendeeId p)) (p_sessionIds p))
               (roster st token)
       \<and> (\<forall>k\<in>set ids. sessions (updateSessionsLeft st token ids) k = None)
       \<and> (holdsRoomSessionIds st token
            \<and> (\<forall>k\<in>set ids. \<forall>s. sessions st k = Some s
                  \<longrightarrow> s_sessionId s \<noteq> Some (s_signalingSessionId s))
            \<longrightarrow> map p_sessionIds (roster (updateSessionsLeft st token ids) token)
                  = map p_sessionIds (roster st token))"
proof -
  have ros: "map p_sessionIds (roster (updateSessionsLeft st token ids) token)
           = map (\<lambda>p. filter (\<lambda>i. i \<notin> Some ` leftIdsOf st ids (p_attendeeId p)) (p_sessionIds p))
               (roster st token)"
    using left_roster [OF assms(2), of ids] by (simp add: updateSessionsLeft_def)
  have gone: "\<forall>k\<in>set ids. sessions (updateSessionsLeft st token ids) k = None"
    by (simp add: updateSessionsLeft_sessions)
  have same: "map p_sessionIds (roster (updateSessionsLeft st token ids) token)
                = map p_sessionIds (roster st token)"
    if model: "holdsRoomSessionIds st token"
      and differ: "\<forall>k\<in>set ids. \<forall>s. sessions st k = Some s
                     \<longrightarrow> s_sessionId s \<noteq> Some (s_signalingSessionId s)"
  proof -
    have "filter (\<lambda>i. i \<notin> Some ` leftIdsOf st ids (p_attendeeId p)) (p_sessionIds p)
            = p_sessionIds p"
      if p: "p \<in> set (roster st token)" for p
    proof -
      have "i \<notin> Some ` leftIdsOf st ids (p_attendeeId p)" if i: "i \<in> set (p_sessionIds p)" for i
      proof
        assume "i \<in> Some ` leftIdsOf st ids (p_attendeeId p)"
        then obtain k where k: "i = Some k" "k \<in> set ids"
          "leftAttendee st k = Some (p_attendeeId p)"
          by (auto simp: leftIdsOf_def)
        from k(3) obtain s where s: "sessions st k = Some s"
          by (auto simp: leftAttendee_def getSession_def split: option.splits if_splits)
        with assms(1) have "s_signalingSessionId s = k" by (simp add: registry_ok_def)
        moreover from model p i k(1) s have "s_sessionId s = Some k"
          by (auto simp: holdsRoomSessionIds_def)
        moreover from differ k(2) s have "s_sessionId s \<noteq> Some (s_signalingSessionId s)"
          by blast
        ultimately show False by simp
      qed
      then show ?thesis by (simp add: filter_id_conv)
    qed
    with ros show ?thesis by (simp cong: map_cong)
  qed
  from ros gone same show ?thesis by blast
qed

theorem leave_filters_by_signaling_ids_witness:
  "registry_ok joined12
   \<and> distinct (map p_attendeeId (roster joined12 TOKEN))
   \<and> holdsRoomSessionIds joined12 TOKEN
   \<and> sessions joined12 ''sig-2'' = Some (mkSession (Some 2) ''sig-2'' (Some ''room-2''))
   \<and> map p_sessionIds (roster (updateSessionsLeft joined12 TOKEN [''sig-1'', ''sig-2'']) TOKEN)
       = [[Some ''room-1''], [Some ''room-2'']]
   \<and> sessions (updateSessionsLeft joined12 TOKEN [''sig-1'', ''sig-2'']) ''sig-2'' = None
   \<and> map p_sessionIds
        (roster (updateSessionsLeft twoSessions TOKEN [''session-id-1'', ''session-id-2'']) TOKEN)
       = [[], []]"
proof -
  have ok: "registry_ok joined12"
    by (simp add: registry_ok_def joined12_def concrete_defs)
  have d: "distinct (map p_attendeeId (roster joined12 TOKEN))"
    by (simp add: joined12_def concrete_defs)
  have m: "holdsRoomSessionIds joined12 TOKEN"
    by (simp add: holdsRoomSessionIds_def joined12_def concrete_defs)
  have differ: "\<forall>k\<in>set [''sig-1'', ''sig-2'']. \<forall>s. sessions joined12 k = Some s
                  \<longrightarrow> s_sessionId s \<noteq> Some (s_signalingSessionId s)"
    by (simp add: joined12_def concrete_defs)
  have s: "sessions joined12 ''sig-2'' = Some (mkSession (Some 2) ''sig-2'' (Some ''room-2''))"
    by (simp add: joined12_def)
  have r: "map p_sessionIds (roster joined12 TOKEN) = [[Some ''room-1''], [Some ''room-2'']]"
    by (simp add: joined12_def concrete_defs)
  have ok2: "registry_ok twoSessions"
    by (rule registry_ok_twoSessions)
  have d2: "distinct (map p_attendeeId (roster twoSessions TOKEN))"
    by (simp add: twoSessions_def concrete_defs)
  have e: "map (\<lambda>p. filter (\<lambda>i. i \<notin> Some ` leftIdsOf twoSessions
                        [''session-id-1'', ''session-id-2''] (p_attendeeId p)) (p_sessionIds p))
             (roster twoSessions TOKEN) = [[], []]"
    by (simp add: twoSessions_def leftIdsOf_def leftAttendee_def getSession_def concrete_defs)
  note joined = leave_filters_by_signaling_ids [OF ok d, of "[''sig-1'', ''sig-2'']"]
  from joined [THEN conjunct2, THEN conjunct2] m differ
  have "map p_sessionIds (roster (updateSessionsLeft joined12 TOKEN [''sig-1'', ''sig-2'']) TOKEN)
          = map p_sessionIds (roster joined12 TOKEN)"
    by blast
  then have "map p_sessionIds
               (roster (updateSessionsLeft joined12 TOKEN [''sig-1'', ''sig-2'']) TOKEN)
          = [[Some ''room-1''], [Some ''room-2'']]"
    by (simp only: r)
  moreover from joined [THEN conjunct2, THEN conjunct1]
  have "sessions (updateSessionsLeft joined12 TOKEN [''sig-1'', ''sig-2'']) ''sig-2'' = None"
    by simp
  moreover from leave_filters_by_signaling_ids
                  [OF ok2 d2, of "[''session-id-1'', ''session-id-2'']", THEN conjunct1]
  have "map p_sessionIds
        (roster (updateSessionsLeft twoSessions TOKEN [''session-id-1'', ''session-id-2'']) TOKEN)
       = [[], []]"
    by (simp only: e)
  ultimately show ?thesis using ok d m s by simp
qed

text \<open>
  C4, at a failing input. Attendee 1 joins with signaling session \<^verbatim>\<open>sig-1\<close> and room
  session \<^verbatim>\<open>room-1\<close>, so \<^verbatim>\<open>sessionIds\<close> is \<^verbatim>\<open>['room-1']\<close>; then \<^verbatim>\<open>sig-1\<close> leaves. The participant
  is found, and no id is removed: the commit carries \<^verbatim>\<open>sessionIds: ['room-1']\<close> and the
  unchanged \<^verbatim>\<open>inCall\<close>, and the session is deleted.
\<close>

theorem leave_after_join_removes_nothing:
  "sessions joined1 ''sig-1'' = Some (mkSession (Some 1) ''sig-1'' (Some ''room-1''))
   \<and> roster joined1 TOKEN = [user1 [Some ''room-1'']]
   \<and> roster (updateSessionsLeft joined1 TOKEN [''sig-1'']) TOKEN = [user1 [Some ''room-1'']]
   \<and> issued joined1 (updateSessionsLeft joined1 TOKEN [''sig-1''])
       = [\<lparr> c_token = TOKEN, c_attendeeId = 1,
            c_updatedData = noUpdate\<lparr> u_inCall := Some 7,
                                      u_sessionIds := Some [Some ''room-1''] \<rparr> \<rparr>]
   \<and> sessions (updateSessionsLeft joined1 TOKEN [''sig-1'']) ''sig-1'' = None"
  by (simp add: joined1_def run_defs concrete_defs)

section \<open>Standalone update payloads\<close>

text \<open>
  C2, at a failing input. The session of a standalone update payload resolves to
  attendee 1, and \<^verbatim>\<open>updateSessions\<close> returns the world it was given: no commit is made.
\<close>

theorem update_entry_commits_nothing:
  "isStandaloneSignalingUpdateSession (updateEntry ''user1'' ''session-id-1'')
   \<and> resolvedAttendee registered1 (updateEntry ''user1'' ''session-id-1'') = Some 1
   \<and> updateSessions findParticipant registered1 TOKEN [updateEntry ''user1'' ''session-id-1'']
       = Inr (False, registered1)"
  by (simp add: run_defs concrete_defs registered1_def)

text \<open>No batch of standalone update payloads makes \<^verbatim>\<open>updateSessions\<close> commit anything.\<close>

lemma update_batch_commits_nothing:
  assumes "\<forall>u\<in>set users. StandaloneSignalingUpdateSession u"
    and "updateSessions fp st token users = Inr (h, st')"
  shows "roster st' = roster st \<and> commits st' = commits st"
proof -
  from assms(2) obtain ids st1 internal where
    loop: "updateSessionsLoop fp token users (False, {}, st) = Inr (h, ids, st1)"
    and int: "isInternalSignalingSessions users = Inr internal"
    and fin: "st' = (if internal
            then deleteSessionsNotIn (updateParticipantsFromInternalSignaling st1 token users) ids
            else st1)"
    by (rule updateSessions_Inr)
  from assms(1) have nj: "\<forall>u\<in>set users. \<not> isStandaloneSignalingJoinSession u"
    by (simp add: StandaloneSignalingUpdateSession_def isStandaloneSignalingJoinSession_def)
  from int assms(1) have "\<not> internal"
    by (cases users)
       (auto simp: isInternalSignalingSessions_def StandaloneSignalingUpdateSession_def)
  with fin loop_no_join [OF nj loop] show ?thesis by simp
qed

section \<open>Errors\<close>

text \<open>
  C9, at a failing input. On the empty batch \<^verbatim>\<open>updateSessions\<close> throws a TypeError, which
  is not the invalid-payload error of \<^verbatim>\<open>findOrCreateSession\<close>.
\<close>

theorem empty_batch_throws: "updateSessions fp st token [] = Inl TypeError"
  by (simp add: updateSessions_def isInternalSignalingSessions_def)

text \<open>
  \<^verbatim>\<open>findOrCreateSession\<close> throws exactly when the id it reads from the payload is absent or
  empty, and then the invalid-payload error; \<^verbatim>\<open>updateSessions\<close> on a batch that is not
  empty throws exactly when one of its payloads is such.
\<close>

lemma findOrCreateSession_throws_iff:
  "(\<exists>e. findOrCreateSession fp st token user = Inl e)
     \<longleftrightarrow> \<not> truthy_string (payloadSignalingSessionId user)"
  by (auto simp: findOrCreateSession_Inl)

lemma loop_throws:
  "updateSessionsLoop fp token users acc = Inl e
     \<Longrightarrow> e = InvalidPayload \<and> (\<exists>u\<in>set users. \<not> truthy_string (payloadSignalingSessionId u))"
proof (induction users arbitrary: acc)
  case Nil
  then show ?case by simp
next
  case (Cons u us)
  obtain h ids st where acc: "acc = (h, ids, st)" by (cases acc)
  show ?case
  proof (cases "findOrCreateSession fp st token u")
    case (Inl e')
    with Cons.prems acc show ?thesis by (auto simp: findOrCreateSession_Inl)
  next
    case (Inr r)
    obtain s st1 where r: "r = (s, st1)" by (cases r)
    from Cons.prems acc Inr r obtain acc' where "updateSessionsLoop fp token us acc' = Inl e"
      by (auto simp: Let_def split: option.splits if_splits)
    from Cons.IH [OF this] show ?thesis by auto
  qed
qed

lemma loop_Inr_ids:
  "updateSessionsLoop fp token users (h, ids, st) = Inr r
     \<Longrightarrow> \<forall>u\<in>set users. truthy_string (payloadSignalingSessionId u)"
proof (induction users arbitrary: h ids st)
  case Nil
  show ?case by simp
next
  case (Cons u us)
  from Cons.prems obtain s st1 st2 where step:
    "findOrCreateSession fp st token u = Inr (s, st1)"
    "sessions st2 = sessions st1"
    "\<not> isStandaloneSignalingJoinSession u \<or> \<not> truthy_number (s_attendeeId s) \<longrightarrow> st2 = st1"
    "updateSessionsLoop fp token us
       (h \<or> \<not> truthy_number (s_attendeeId s), insert (s_signalingSessionId s) ids, st2) = Inr r"
    by (rule loop_Cons)
  from findOrCreateSession_Inr [OF step(1)]
  have "truthy_string (payloadSignalingSessionId u)"
    by (auto simp: truthy_string_def)
  with Cons.IH [OF step(4)] show ?case by simp
qed

lemma updateSessions_throws_iff:
  assumes "users \<noteq> []"
  shows "updateSessions fp st token users = Inl e
           \<longleftrightarrow> e = InvalidPayload
               \<and> (\<exists>u\<in>set users. \<not> truthy_string (payloadSignalingSessionId u))"
proof
  assume t: "updateSessions fp st token users = Inl e"
  from isInternalSignalingSessions_Cons [OF assms]
  obtain b where "isInternalSignalingSessions users = Inr b" ..
  with t have "updateSessionsLoop fp token users (False, {}, st) = Inl e"
    by (auto simp: updateSessions_def split: sum.splits if_splits)
  then show "e = InvalidPayload
               \<and> (\<exists>u\<in>set users. \<not> truthy_string (payloadSignalingSessionId u))"
    by (rule loop_throws)
next
  assume r: "e = InvalidPayload
               \<and> (\<exists>u\<in>set users. \<not> truthy_string (payloadSignalingSessionId u))"
  show "updateSessions fp st token users = Inl e"
  proof (cases "updateSessions fp st token users")
    case (Inl e')
    from isInternalSignalingSessions_Cons [OF assms]
    obtain b where "isInternalSignalingSessions users = Inr b" ..
    with Inl have "updateSessionsLoop fp token users (False, {}, st) = Inl e'"
      by (auto simp: updateSessions_def split: sum.splits if_splits)
    from loop_throws [OF this] r Inl show ?thesis by simp
  next
    case (Inr p)
    obtain h st' where "p = (h, st')" by (cases p)
    with Inr obtain ids st1 where
      "updateSessionsLoop fp token users (False, {}, st) = Inr (h, ids, st1)"
      by (auto elim: updateSessions_Inr)
    from loop_Inr_ids [OF this] r show ?thesis by blast
  qed
qed

section \<open>The signaling connection drops\<close>

lemma updateParticipant_roster_other:
  "t \<noteq> token \<Longrightarrow> roster (updateParticipant st token a d) t = roster st t"
  by (simp add: updateParticipant_def)

lemma disconnectParticipants_commits:
  "commits (disconnectParticipants token ps st)
     = commits st @
       map (\<lambda>p. \<lparr> c_token = token, c_attendeeId = p_attendeeId p,
                  c_updatedData = noUpdate\<lparr> u_inCall := Some CALL_FLAG_DISCONNECTED \<rparr> \<rparr>)
         (filter (\<lambda>p. p_sessionIds p \<noteq> []) ps)"
  by (induction ps arbitrary: st) simp_all

lemma disconnectParticipants_sessionIds:
  "map p_sessionIds (roster (disconnectParticipants token ps st) t) = map p_sessionIds (roster st t)"
proof (induction ps arbitrary: st)
  case Nil
  show ?case by simp
next
  case (Cons p ps)
  have "map p_sessionIds
          (roster (updateParticipant st token (p_attendeeId p)
                     (noUpdate\<lparr> u_inCall := Some CALL_FLAG_DISCONNECTED \<rparr>)) t)
        = map p_sessionIds (roster st t)"
    by (cases "t = token")
       (simp_all add: updateParticipant_roster updateParticipant_roster_other
          mergeParticipant_def noUpdate_def comp_def cong: map_cong)
  with Cons show ?case by simp
qed

lemma disconnectParticipants_sessions:
  "sessions (disconnectParticipants token ps st) = sessions st"
  by (induction ps arbitrary: st) simp_all

text \<open>
  C3. \<^verbatim>\<open>updateParticipantsDisconnectedFromStandaloneSignaling(token)\<close> commits, for every
  participant of the conversation who has a session and in roster order, one command
  whose only key is \<^verbatim>\<open>inCall\<close>, set to the disconnected flag; no command has
  \<^verbatim>\<open>sessionIds\<close>, and the \<^verbatim>\<open>sessionIds\<close> of every participant and the registry are
  unchanged.
\<close>

theorem disconnected_clears_inCall_only:
  "issued st (updateParticipantsDisconnectedFromStandaloneSignaling st token)
     = map (\<lambda>p. \<lparr> c_token = token, c_attendeeId = p_attendeeId p,
                  c_updatedData = noUpdate\<lparr> u_inCall := Some CALL_FLAG_DISCONNECTED \<rparr> \<rparr>)
         (filter (\<lambda>p. p_sessionIds p \<noteq> []) (participantsList st token))
   \<and> u_sessionIds (noUpdate\<lparr> u_inCall := Some CALL_FLAG_DISCONNECTED \<rparr>) = None
   \<and> map p_sessionIds (roster (updateParticipantsDisconnectedFromStandaloneSignaling st token) t)
       = map p_sessionIds (roster st t)
   \<and> sessions (updateParticipantsDisconnectedFromStandaloneSignaling st token) = sessions st"
  by (simp add: updateParticipantsDisconnectedFromStandaloneSignaling_def issued_def
        disconnectParticipants_commits disconnectParticipants_sessionIds
        disconnectParticipants_sessions noUpdate_def)

theorem disconnected_clears_inCall_only_witness:
  "issued twoSessions (updateParticipantsDisconnectedFromStandaloneSignaling twoSessions TOKEN)
     = [\<lparr> c_token = TOKEN, c_attendeeId = 1,
          c_updatedData = noUpdate\<lparr> u_inCall := Some 0 \<rparr> \<rparr>,
        \<lparr> c_token = TOKEN, c_attendeeId = 2,
          c_updatedData = noUpdate\<lparr> u_inCall := Some 0 \<rparr> \<rparr>]
   \<and> map p_sessionIds
        (roster (updateParticipantsDisconnectedFromStandaloneSignaling twoSessions TOKEN) TOKEN)
       = [[Some ''session-id-1''], [Some ''session-id-2'']]"
  using disconnected_clears_inCall_only [of twoSessions TOKEN TOKEN]
  by (simp add: twoSessions_def participantsList_def concrete_defs)

end
